theory Spec2Isabelle
  imports Complex_Main
begin

section \<open>Data model of centurylinkchallenge.go\<close>

text \<open>
  Instants (\<open>time.Time\<close>) and durations (\<open>time.Duration\<close>) are counted in
  nanoseconds and modelled as unbounded integers: no claim below depends on an
  \<open>int64\<close> overflow. The metric values (\<open>float64\<close>) are modelled as real
  numbers, so sums and quotients are exact; every concrete input evaluated below uses
  small whole numbers, on which the \<open>float64\<close> operations are exact as well.
\<close>

definition Second :: int where
  "Second = 1000000000"

definition Minute :: int where
  "Minute = 60 * Second"

definition Hour :: int where
  "Hour = 60 * Minute"

record pulse =
  Name :: string
  Cpu :: real
  Mem :: real
  Time :: int

record server =
  Name :: string
  Statistics :: "pulse list"

record Context =
  servers :: "string \<rightharpoonup> server"

record average =
  count :: int
  memsum :: real
  cpusum :: real

section \<open>The store: \<open>upsert\<close> and \<open>get\<close>\<close>

text \<open>
  \<open>upsert\<close> returns the updated context together with the source's result pair
  \<open>(int, error)\<close>; the error is \<open>None\<close> for \<open>nil\<close>.
\<close>

definition upsert :: "Context \<Rightarrow> pulse \<Rightarrow> Context \<times> int \<times> string option" where
  "upsert c s =
     (let srv = (case servers c (pulse.Name s) of
                   None \<Rightarrow> \<lparr>server.Name = pulse.Name s, Statistics = []\<rparr>
                 | Some v \<Rightarrow> v)
      in (c\<lparr>servers := (servers c)(pulse.Name s \<mapsto>
                             srv\<lparr>Statistics := Statistics srv @ [s]\<rparr>)\<rparr>,
          200, None))"

section \<open>The aggregator: \<open>average\<close> and \<open>appendAndReset\<close>\<close>

definition appendAndReset ::
    "real list \<Rightarrow> real list \<Rightarrow> average \<Rightarrow> real list \<times> real list \<times> average" where
  "appendAndReset cpuaverages memaverages a =
     (if cpusum a > 0
      then (cpuaverages @ [cpusum a / real_of_int (count a)],
            memaverages @ [memsum a / real_of_int (count a)],
            \<lparr>count = 0, memsum = 0, cpusum = 0\<rparr>)
      else (cpuaverages, memaverages, a))"

text \<open>
  \<open>Duration.Minutes\<close> and the conversion \<open>time.Duration(x)\<close> of a
  \<open>float64\<close>, which discards the fraction (truncation towards zero). The product
  that is truncated is computed here in the real numbers. That is what the source computes
  when \<open>rate\<close> is a whole number of minutes, as at the two call sites of
  \<open>get\<close>, and when it is half a minute; for other rates the rounding of
  \<open>float64\<close> can move an edge by a minute (for a rate of 100s and the ninth
  duration the source truncates to 14 minutes where the exact product is 15).
\<close>

definition Minutes :: "int \<Rightarrow> real" where
  "Minutes d = real_of_int d / real_of_int Minute"

definition to_Duration :: "real \<Rightarrow> int" where
  "to_Duration x = (if 0 \<le> x then \<lfloor>x\<rfloor> else \<lceil>x\<rceil>)"

text \<open>
  The instant
  \<open>start.Add(time.Duration(float64(-1 * durations) * rate.Minutes()) * time.Minute)\<close>,
  which the loop compares each pulse with.
\<close>

definition edge :: "int \<Rightarrow> int \<Rightarrow> int \<Rightarrow> int" where
  "edge start durations rate =
     start + to_Duration (real_of_int (-1 * durations) * Minutes rate) * Minute"

text \<open>The local variables of \<open>average\<close> that the loop updates.\<close>

record locals =
  a :: average
  cpuaverages :: "real list"
  memaverages :: "real list"
  durations :: int

text \<open>The body of the inner \<open>for\<close> loop: \<open>durations++\<close>, then \<open>appendAndReset\<close>.\<close>

definition roll :: "locals \<Rightarrow> locals" where
  "roll l =
     (case appendAndReset (cpuaverages l) (memaverages l) (a l) of
        (c, m, a') \<Rightarrow>
          \<lparr>a = a', cpuaverages = c, memaverages = m, durations = durations l + 1\<rparr>)"

text \<open>
  The inner \<open>for\<close> loop. It need not end (it does not when \<open>rate\<close> is zero
  and the pulse is older than \<open>start\<close>), so not returning is the value \<open>None\<close>.
\<close>

partial_function (option) rollover :: "pulse \<Rightarrow> int \<Rightarrow> int \<Rightarrow> locals \<Rightarrow> locals option" where
  "rollover p start rate l =
     (if Time p < edge start (durations l) rate
      then rollover p start rate (roll l)
      else Some l)"

text \<open>The branch taken when the pulse lies within the current duration.\<close>

definition add :: "locals \<Rightarrow> pulse \<Rightarrow> locals" where
  "add l p =
     l\<lparr>a := \<lparr>count = count (a l) + 1,
              memsum = memsum (a l) + Mem p,
              cpusum = cpusum (a l) + Cpu p\<rparr>\<rparr>"

text \<open>The branch that ends the calculation.\<close>

definition finish :: "locals \<Rightarrow> locals" where
  "finish l =
     (if cpusum (a l) > 0
      then l\<lparr>cpuaverages := cpuaverages l @ [cpusum (a l) / real_of_int (count (a l))],
             memaverages := memaverages l @ [memsum (a l) / real_of_int (count (a l))]\<rparr>
      else l)"

text \<open>
  The outer loop, from index \<open>i\<close> downwards. The call of \<open>appendAndReset\<close>
  under \<open>i == 0\<close> drops its three results, and neither the slices' lengths nor the
  accumulator that \<open>a\<close> points to change in the caller.
\<close>

function average_loop ::
    "pulse list \<Rightarrow> int \<Rightarrow> int \<Rightarrow> int \<Rightarrow> int \<Rightarrow> locals \<Rightarrow> locals option" where
  "average_loop stats start length' rate i l =
     (if i < 0 \<or> Time (stats ! nat i) < start + (-1 * length')
      then Some (finish l)
      else if Time (stats ! nat i) > edge start (durations l) rate
      then average_loop stats start length' rate (i - 1) (add l (stats ! nat i))
      else (case rollover (stats ! nat i) start rate l of
              None \<Rightarrow> None
            | Some l' \<Rightarrow>
                (let l'' = (if i = 0
                            then (case appendAndReset (cpuaverages l') (memaverages l') (a l') of
                                    (_, _, _) \<Rightarrow> l')
                            else l')
                 in average_loop stats start length' rate (i - 1) l'')))"
  by pat_completeness auto
termination
  by (relation "measure (\<lambda>(stats, start, length', rate, i, l). nat (i + 1))") auto

declare average_loop.simps [simp del]

text \<open>\<open>start\<close> is the value of \<open>time.Now()\<close>; the result pair is (memaverages, cpuaverages).\<close>

definition average :: "server \<Rightarrow> int \<Rightarrow> int \<Rightarrow> int \<Rightarrow> (real list \<times> real list) option" where
  "average s start length' rate =
     (case average_loop (Statistics s) start length' rate (int (length (Statistics s)) - 1)
             \<lparr>a = \<lparr>count = 0, memsum = 0, cpusum = 0\<rparr>,
              cpuaverages = [], memaverages = [], durations = 1\<rparr> of
        None \<Rightarrow> None
      | Some l \<Rightarrow> Some (memaverages l, cpuaverages l))"

text \<open>
  \<open>get\<close>: what is written to the response, then the result pair \<open>(int, error)\<close>.
  Each call of \<open>average\<close> reads the clock itself: \<open>now60\<close> and \<open>now24\<close>.
\<close>

datatype body =
  NoUpdate string
| Averages "real list" "real list" "real list" "real list"

definition get ::
    "Context \<Rightarrow> int \<Rightarrow> int \<Rightarrow> string \<Rightarrow> (body option \<times> int \<times> string option) option" where
  "get c now60 now24 srv =
     (case servers c srv of
        None \<Rightarrow>
          Some (None, 500,
                Some (''No server information found for '' @ [CHR 0x27] @ srv @ [CHR 0x27] @ ''.''))
      | Some s \<Rightarrow>
          if length (Statistics s) = 0
          then Some (Some (NoUpdate srv), 200, None)
          else (case average s now60 (Minute * 60) (Minute * 1) of
                  None \<Rightarrow> None
                | Some (mem60, cpu60) \<Rightarrow>
                    (case average s now24 (Hour * 24) (Hour * 1) of
                       None \<Rightarrow> None
                     | Some (mem24, cpu24) \<Rightarrow>
                         Some (Some (Averages mem60 cpu60 mem24 cpu24), 200, None))))"

text \<open>
  \<open>Handler.ServeHTTP\<close>, applied to what the handler \<open>h.H\<close> has written and
  returned. When the error is not \<open>nil\<close> it answers with the page of
  \<open>http.NotFound\<close> for the status \<open>http.StatusNotFound\<close>, and with
  \<open>http.Error\<close> under the handler's status otherwise (the text of that page,
  \<open>http.StatusText(status)\<close>, is left out); when the error is \<open>nil\<close> it
  adds nothing.
\<close>

definition StatusNotFound :: int where
  "StatusNotFound = 404"

definition StatusInternalServerError :: int where
  "StatusInternalServerError = 500"

datatype page = NotFoundPage | ErrorPage int

definition ServeHTTP :: "body option \<times> int \<times> string option \<Rightarrow> body option \<times> page option" where
  "ServeHTTP r =
     (case r of (w, status, err) \<Rightarrow>
        (case err of
           None \<Rightarrow> (w, None)
         | Some e \<Rightarrow>
             if status = StatusNotFound then (w, Some NotFoundPage)
             else if status = StatusInternalServerError then (w, Some (ErrorPage status))
             else (w, Some (ErrorPage status))))"

section \<open>Auxiliary definitions for the proofs\<close>

text \<open>
  The outer loop once more, by recursion over the pulses still to be visited, latest
  appended first; \<open>average_loop_walk\<close> below proves that it is the loop of the source.
\<close>

fun walk :: "int \<Rightarrow> int \<Rightarrow> int \<Rightarrow> locals \<Rightarrow> pulse list \<Rightarrow> locals option" where
  "walk start length' rate l [] = Some (finish l)"
| "walk start length' rate l (p # ps) =
     (if Time p < start + (-1 * length') then Some (finish l)
      else if Time p > edge start (durations l) rate then walk start length' rate (add l p) ps
      else (case rollover p start rate l of
              None \<Rightarrow> None
            | Some l' \<Rightarrow> walk start length' rate l' ps))"

text \<open>
  An instrumented run of the same loop. Beside the local variables it keeps a ghost record
  that the loop never reads: the pulses added to the accumulator since its last reset, the
  value of \<open>durations\<close> when the last pulse was added, and for every division
  executed so far the pulses averaged (with that value of \<open>durations\<close>) and the
  divisor \<open>a.count\<close>.
\<close>

record ghost =
  members :: "pulse list"
  bucket :: int
  groups :: "(int \<times> pulse list) list"
  divisors :: "int list"

definition note_division :: "locals \<Rightarrow> ghost \<Rightarrow> ghost" where
  "note_division l g =
     (if cpusum (a l) > 0
      then g\<lparr>groups := groups g @ [(bucket g, members g)],
             divisors := divisors g @ [count (a l)]\<rparr>
      else g)"

definition g_roll :: "locals \<times> ghost \<Rightarrow> locals \<times> ghost" where
  "g_roll x =
     (case x of (l, g) \<Rightarrow>
        (roll l, (note_division l g)\<lparr>members := (if cpusum (a l) > 0 then [] else members g)\<rparr>))"

partial_function (option) g_rollover ::
    "pulse \<Rightarrow> int \<Rightarrow> int \<Rightarrow> locals \<times> ghost \<Rightarrow> (locals \<times> ghost) option" where
  "g_rollover p start rate x =
     (if Time p < edge start (durations (fst x)) rate
      then g_rollover p start rate (g_roll x)
      else Some x)"

definition g_add :: "locals \<times> ghost \<Rightarrow> pulse \<Rightarrow> locals \<times> ghost" where
  "g_add x p =
     (case x of (l, g) \<Rightarrow> (add l p, g\<lparr>members := p # members g, bucket := durations l\<rparr>))"

definition g_finish :: "locals \<times> ghost \<Rightarrow> locals \<times> ghost" where
  "g_finish x = (case x of (l, g) \<Rightarrow> (finish l, note_division l g))"

fun g_walk ::
    "int \<Rightarrow> int \<Rightarrow> int \<Rightarrow> locals \<times> ghost \<Rightarrow> pulse list \<Rightarrow> (locals \<times> ghost) option" where
  "g_walk start length' rate x [] = Some (g_finish x)"
| "g_walk start length' rate x (p # ps) =
     (if Time p < start + (-1 * length') then Some (g_finish x)
      else if Time p > edge start (durations (fst x)) rate
      then g_walk start length' rate (g_add x p) ps
      else (case g_rollover p start rate x of
              None \<Rightarrow> None
            | Some x' \<Rightarrow> g_walk start length' rate x' ps))"

text \<open>The initial values of the local variables, and of the ghost record.\<close>

definition locals0 :: locals where
  "locals0 = \<lparr>a = \<lparr>count = 0, memsum = 0, cpusum = 0\<rparr>,
              cpuaverages = [], memaverages = [], durations = 1\<rparr>"

definition ghost0 :: ghost where
  "ghost0 = \<lparr>members = [], bucket = 1, groups = [], divisors = []\<rparr>"

definition average_ghost :: "server \<Rightarrow> int \<Rightarrow> int \<Rightarrow> int \<Rightarrow> ghost option" where
  "average_ghost s start length' rate =
     map_option snd (g_walk start length' rate (locals0, ghost0) (rev (Statistics s)))"

text \<open>The arithmetic mean of one metric over a list of pulses.\<close>

definition mean :: "(pulse \<Rightarrow> real) \<Rightarrow> pulse list \<Rightarrow> real" where
  "mean f ps = sum_list (map f ps) / real (length ps)"

text \<open>
  The link between an instrumented run and the local variables: the accumulator holds
  the count and the sums of the pulses added since its last reset, the two result slices
  hold the means of the groups averaged so far, every divisor is the size of its group,
  and all these pulses come from the set \<open>S\<close>.
\<close>

definition coupled :: "pulse set \<Rightarrow> locals \<times> ghost \<Rightarrow> bool" where
  "coupled S x =
     (case x of (l, g) \<Rightarrow>
        0 \<le> durations l \<and>
        count (a l) = int (length (members g)) \<and>
        cpusum (a l) = sum_list (map Cpu (members g)) \<and>
        memsum (a l) = sum_list (map Mem (members g)) \<and>
        cpuaverages l = map (mean Cpu) (map snd (groups g)) \<and>
        memaverages l = map (mean Mem) (map snd (groups g)) \<and>
        divisors g = map (\<lambda>ms. int (length ms)) (map snd (groups g)) \<and>
        set (members g) \<subseteq> S \<and>
        (\<forall>ms \<in> set (map snd (groups g)). ms \<noteq> [] \<and> set ms \<subseteq> S))"

text \<open>
  The bucket intervals in the words of the specification: bucket \<open>j\<close> (the most
  recent is bucket 1) of width \<open>w\<close> is the half-open interval from
  \<open>now - j * w\<close> up to, but not including, \<open>now - (j - 1) * w\<close>.
\<close>

definition in_bucket :: "int \<Rightarrow> int \<Rightarrow> int \<Rightarrow> int \<Rightarrow> bool" where
  "in_bucket now w j t \<longleftrightarrow> now - j * w \<le> t \<and> t < now - (j - 1) * w"

text \<open>
  What an instrumented run keeps true on a history in time order: the groups averaged so
  far carry increasing bucket numbers and lie within their buckets and within the window
  (\<open>filed\<close>); the pulses in the accumulator lie strictly inside the current bucket,
  and every group's number is below the current value of \<open>durations\<close>
  (\<open>tidy\<close>).
\<close>

definition filed :: "int \<Rightarrow> int \<Rightarrow> int \<Rightarrow> ghost \<Rightarrow> bool" where
  "filed start length' rate g \<longleftrightarrow>
     sorted_wrt (<) (map fst (groups g)) \<and>
     (\<forall>(j, ms) \<in> set (groups g).
        1 \<le> j \<and> (\<forall>p \<in> set ms. start - length' \<le> Time p \<and> in_bucket start rate j (Time p)))"

definition tidy :: "int \<Rightarrow> int \<Rightarrow> int \<Rightarrow> locals \<times> ghost \<Rightarrow> bool" where
  "tidy start length' rate x =
     (case x of (l, g) \<Rightarrow>
        1 \<le> durations l \<and>
        (members g \<noteq> [] \<longrightarrow> bucket g = durations l) \<and>
        (\<forall>p \<in> set (members g).
           start - length' \<le> Time p \<and> start - durations l * rate < Time p \<and>
           Time p < start - (durations l - 1) * rate) \<and>
        filed start length' rate g \<and>
        (\<forall>(j, ms) \<in> set (groups g). j < durations l))"

text \<open>
  The aggregation in the words of the specification, to compare \<open>average\<close> with:
  for the buckets 1 to \<open>length / w\<close>, most recent first, the mean of each metric
  over the pulses whose time falls in the bucket, with the buckets that hold no pulse left
  out. As in \<open>average\<close>, the memory sequence comes first.
\<close>

definition bucket_samples :: "pulse list \<Rightarrow> int \<Rightarrow> int \<Rightarrow> int \<Rightarrow> pulse list" where
  "bucket_samples h now w j = filter (\<lambda>p. in_bucket now w j (Time p)) h"

definition spec_average :: "pulse list \<Rightarrow> int \<Rightarrow> int \<Rightarrow> int \<Rightarrow> real list \<times> real list" where
  "spec_average h now length' w =
     (let bs = filter (\<lambda>b. b \<noteq> []) (map (bucket_samples h now w) [1..length' div w])
      in (map (mean Mem) bs, map (mean Cpu) bs))"

text \<open>
  A history of \<open>n\<close> pulses, one per minute from the instant \<open>t\<close> on, in
  the order of their arrival; pulse number \<open>i\<close> (from 0) has cpu \<open>i + 1\<close> and
  memory \<open>i + 101\<close>.
\<close>

fun minutely :: "int \<Rightarrow> nat \<Rightarrow> pulse list" where
  "minutely t 0 = []"
| "minutely t (Suc n) =
     minutely t n @ [\<lparr>pulse.Name = ''web-01'', Cpu = 1 + real n, Mem = 101 + real n,
                     Time = t + int n * Minute\<rparr>]"

section \<open>Basic facts\<close>

lemma to_Duration_of_int: "to_Duration (of_int k) = k"
  by (simp add: to_Duration_def)

lemma edge_dvd: assumes "Minute dvd rate" shows "edge start d rate = start - d * rate"
proof -
  from assms obtain m where m: "rate = Minute * m" by (auto simp: dvd_def)
  have "real_of_int (-1 * d) * Minutes rate = of_int (- d * m)"
    by (simp add: Minutes_def m Minute_def Second_def)
  then have "to_Duration (real_of_int (-1 * d) * Minutes rate) = - d * m"
    by (simp only: to_Duration_of_int)
  then show ?thesis by (simp add: edge_def m)
qed

lemma average_loop_walk:
  "- 1 \<le> i \<Longrightarrow> i < int (length stats) \<Longrightarrow>
   average_loop stats start length' rate i l
     = walk start length' rate l (rev (take (nat (i + 1)) stats))"
proof (induction stats start length' rate i l rule: average_loop.induct)
  case (1 stats start length' rate i l)
  show ?case
  proof (cases "i < 0")
    case True
    with "1.prems" have "i = -1" by simp
    then show ?thesis by (simp add: average_loop.simps)
  next
    case False
    then have n: "nat (i + 1) = Suc (nat i)" and lt: "nat i < length stats"
      using "1.prems" by auto
    have r: "rev (take (nat (i + 1)) stats) = stats ! nat i # rev (take (nat (i - 1 + 1)) stats)"
      using lt by (simp add: n take_Suc_conv_app_nth)
    from False "1.prems" have b: "- 1 \<le> i - 1" "i - 1 < int (length stats)" by auto
    show ?thesis
      unfolding r
      apply (subst average_loop.simps)
      using False "1.IH"(1)[OF _ _ b] "1.IH"(2)[OF _ _ _ _ b]
      apply (auto simp: Let_def split: option.splits prod.splits)
      done
  qed
qed

lemma average_walk:
  "average s start length' rate
     = map_option (\<lambda>l. (memaverages l, cpuaverages l))
         (walk start length' rate locals0 (rev (Statistics s)))"
  using average_loop_walk [of "int (length (Statistics s)) - 1" "Statistics s" start length' rate locals0]
  by (simp add: average_def locals0_def split: option.splits)

subsection \<open>Evaluation on concrete inputs\<close>

lemmas units = Hour_def Minute_def Second_def

lemma edge_whole: "rate mod 60000000000 = 0 \<Longrightarrow> edge start d rate = start - d * rate"
  by (rule edge_dvd) (simp add: units mod_eq_0_iff_dvd)

lemma to_Duration_nonpos: "x \<le> 0 \<Longrightarrow> to_Duration x = \<lceil>x\<rceil>"
  by (cases "x = 0") (simp_all add: to_Duration_def)

lemma edge_half:
  assumes "0 \<le> d"
  shows "edge start d 30000000000 = start - (d div 2) * 60000000000"
proof -
  have "Minutes 30000000000 = 1 / 2"
    by (simp add: Minutes_def units)
  then have "real_of_int (-1 * d) * Minutes 30000000000 = - (real_of_int d / 2)"
    by simp
  moreover have "to_Duration (- (real_of_int d / 2)) = - (d div 2)"
  proof -
    have "- (real_of_int d / 2) \<le> 0" using assms by simp
    then have "to_Duration (- (real_of_int d / 2)) = \<lceil>- (real_of_int d / 2)\<rceil>"
      by (rule to_Duration_nonpos)
    also have "\<dots> = - \<lfloor>real_of_int d / 2\<rfloor>" by (simp add: ceiling_def)
    also have "\<lfloor>real_of_int d / 2\<rfloor> = d div 2"
      using floor_divide_of_int_eq [of d 2, where ?'a = real] by simp
    finally show ?thesis .
  qed
  ultimately have "to_Duration (real_of_int (-1 * d) * Minutes 30000000000) = - (d div 2)"
    by (simp only:)
  then show ?thesis unfolding edge_def by (simp add: units)
qed

lemmas run_defs = average_def average_loop.simps rollover.simps add_def finish_def roll_def
  appendAndReset_def edge_whole

lemmas ghost_defs = average_ghost_def g_rollover.simps g_add_def g_roll_def g_finish_def
  note_division_def locals0_def ghost0_def add_def finish_def roll_def appendAndReset_def edge_whole

lemma upto_from_one: "[1..numeral n] = 1 # [2..numeral n]"
  by (subst upto.simps) simp

lemmas spec_defs = spec_average_def bucket_samples_def in_bucket_def mean_def Let_def upto_from_one

subsection \<open>The inner loop ends when the rate is positive\<close>

lemma edge_upper:
  assumes "0 < rate" and "0 \<le> d"
  shows "edge start d rate < start - d + Minute"
proof -
  let ?x = "real_of_int (-1 * d) * Minutes rate"
  have M: "0 < real_of_int Minute" by (simp add: Minute_def Second_def)
  have x0: "?x \<le> 0" using assms by (simp add: Minutes_def Minute_def Second_def mult_nonneg_nonneg)
  then have td: "to_Duration ?x = \<lceil>?x\<rceil>" by (rule to_Duration_nonpos)
  have "real_of_int \<lceil>?x\<rceil> < ?x + 1" by linarith
  then have "real_of_int \<lceil>?x\<rceil> * real_of_int Minute < (?x + 1) * real_of_int Minute"
    using M by (simp only: mult_less_cancel_right_pos)
  also have "(?x + 1) * real_of_int Minute = - (real_of_int d * real_of_int rate) + real_of_int Minute"
    using M by (simp add: Minutes_def field_simps)
  also have "\<dots> \<le> - real_of_int d + real_of_int Minute"
  proof -
    have "1 \<le> rate" using assms by simp
    then have "d * 1 \<le> d * rate" using assms(2) by (rule mult_left_mono)
    then have "real_of_int d \<le> real_of_int d * real_of_int rate"
      by (metis mult.right_neutral of_int_le_iff of_int_mult)
    then show ?thesis by simp
  qed
  finally have "real_of_int (\<lceil>?x\<rceil> * Minute) < real_of_int (- d + Minute)" by simp
  then have "\<lceil>?x\<rceil> * Minute < - d + Minute" by (simp only: of_int_less_iff)
  then show ?thesis unfolding edge_def td by simp
qed

lemma durations_g_roll: "durations (fst (g_roll x)) = durations (fst x) + 1"
  by (cases x) (simp add: g_roll_def roll_def appendAndReset_def)

lemma g_roll_twice:
  "g_roll (g_roll x) = (case g_roll x of (l, g) \<Rightarrow> (l\<lparr>durations := durations l + 1\<rparr>, g))"
  by (cases x) (simp add: g_roll_def roll_def appendAndReset_def note_division_def)

lemma g_rollover_run:
  assumes "0 < rate" and "0 \<le> durations (fst x)"
  shows "\<exists>d'. g_rollover p start rate x
             = Some (if Time p < edge start (durations (fst x)) rate
                     then (case g_roll x of (l, g) \<Rightarrow> (l\<lparr>durations := d'\<rparr>, g))
                     else x) \<and>
           \<not> Time p < edge start d' rate \<and>
           (if Time p < edge start (durations (fst x)) rate
            then durations (fst x) < d' \<and> Time p < edge start (d' - 1) rate
            else d' = durations (fst x))"
  using assms(2)
proof (induction "nat (start + Minute - Time p - durations (fst x))" arbitrary: x rule: less_induct)
  case less
  let ?d = "durations (fst x)"
  show ?case
  proof (cases "Time p < edge start ?d rate")
    case False
    then show ?thesis by (subst g_rollover.simps) simp
  next
    case True
    let ?x' = "g_roll x"
    have d': "durations (fst ?x') = ?d + 1" by (rule durations_g_roll)
    from edge_upper [OF assms(1) less.prems, of start] True
    have "Time p < start - ?d + Minute" by simp
    then have m: "nat (start + Minute - Time p - durations (fst ?x')) < nat (start + Minute - Time p - ?d)"
      unfolding d' by simp
    have "0 \<le> durations (fst ?x')" unfolding d' using less.prems by simp
    from less.hyps [OF m this] obtain e where
      e1: "g_rollover p start rate ?x'
             = Some (if Time p < edge start (?d + 1) rate
                     then (case g_roll ?x' of (l, g) \<Rightarrow> (l\<lparr>durations := e\<rparr>, g))
                     else ?x')"
      and e2: "\<not> Time p < edge start e rate"
      and e3: "if Time p < edge start (?d + 1) rate
               then ?d + 1 < e \<and> Time p < edge start (e - 1) rate
               else e = ?d + 1"
      unfolding d' by blast
    have r: "g_rollover p start rate x = g_rollover p start rate ?x'"
      using True by (subst g_rollover.simps) simp
    obtain l1 g1 where x1: "g_roll x = (l1, g1)" by (cases "g_roll x")
    have dl1: "durations l1 = ?d + 1" using d' x1 by simp
    show ?thesis
    proof (cases "Time p < edge start (?d + 1) rate")
      case T2: True
      have "g_roll ?x' = (l1\<lparr>durations := durations l1 + 1\<rparr>, g1)"
        using g_roll_twice [of x] unfolding x1 by simp
      then have "g_rollover p start rate x = Some (l1\<lparr>durations := e\<rparr>, g1)"
        unfolding r e1 using T2 by simp
      with True T2 e2 e3 x1 show ?thesis by (intro exI [of _ e]) simp
    next
      case F2: False
      have "l1\<lparr>durations := ?d + 1\<rparr> = l1" using dl1 by simp
      then have "g_rollover p start rate x = Some (l1\<lparr>durations := ?d + 1\<rparr>, g1)"
        unfolding r e1 using F2 by (simp add: x1)
      with True F2 x1 show ?thesis by (intro exI [of _ "?d + 1"]) simp
    qed
  qed
qed

lemma rollover_g_rollover:
  assumes "0 < rate" and "0 \<le> durations l"
  shows "rollover p start rate l = map_option fst (g_rollover p start rate (l, g))"
  using assms(2)
proof (induction "nat (start + Minute - Time p - durations l)" arbitrary: l g rule: less_induct)
  case less
  show ?case
  proof (cases "Time p < edge start (durations l) rate")
    case False
    then show ?thesis by (subst rollover.simps, subst g_rollover.simps) simp
  next
    case True
    from edge_upper [OF assms(1) less.prems, of start] True
    have "Time p < start - durations l + Minute" by simp
    then have m: "nat (start + Minute - Time p - durations (roll l)) < nat (start + Minute - Time p - durations l)"
      by (simp add: roll_def appendAndReset_def)
    have d0: "0 \<le> durations (roll l)" using less.prems by (simp add: roll_def appendAndReset_def)
    obtain g1 where g1: "g_roll (l, g) = (roll l, g1)" by (simp add: g_roll_def)
    have "rollover p start rate l = rollover p start rate (roll l)"
      using True by (subst rollover.simps) simp
    also have "\<dots> = map_option fst (g_rollover p start rate (roll l, g1))"
      by (rule less.hyps [OF m d0])
    also have "\<dots> = map_option fst (g_rollover p start rate (l, g))"
      using True by (subst (2) g_rollover.simps) (simp add: g1)
    finally show ?thesis .
  qed
qed

lemma rollover_run:
  assumes "0 < rate" and "0 \<le> durations l"
  shows "\<exists>d'. rollover p start rate l
               = Some (if Time p < edge start (durations l) rate
                       then (roll l)\<lparr>durations := d'\<rparr> else l) \<and>
             \<not> Time p < edge start d' rate \<and>
             (if Time p < edge start (durations l) rate
              then durations l < d' \<and> Time p < edge start (d' - 1) rate
              else d' = durations l)"
proof -
  have d0: "0 \<le> durations (fst (l, ghost0))" using assms(2) by simp
  from g_rollover_run [OF assms(1) d0, of p start, unfolded fst_conv] obtain d' where
    r: "g_rollover p start rate (l, ghost0)
          = Some (if Time p < edge start (durations l) rate
                  then (case g_roll (l, ghost0) of (l, g) \<Rightarrow> (l\<lparr>durations := d'\<rparr>, g))
                  else (l, ghost0))"
    and e: "\<not> Time p < edge start d' rate"
    and d': "if Time p < edge start (durations l) rate
             then durations l < d' \<and> Time p < edge start (d' - 1) rate
             else d' = durations l"
    by blast
  have "rollover p start rate l
          = Some (if Time p < edge start (durations l) rate
                  then (roll l)\<lparr>durations := d'\<rparr> else l)"
    unfolding rollover_g_rollover [OF assms, of p start ghost0] r
    by (simp add: g_roll_def)
  with e d' show ?thesis by blast
qed

subsection \<open>The instrumented run and the loop agree\<close>

lemma coupled_init: "coupled S (locals0, ghost0)"
  by (simp add: coupled_def locals0_def ghost0_def)

lemma coupled_guard:
  assumes "coupled S (l, g)" and "0 < cpusum (a l)"
  shows "members g \<noteq> []"
  using assms by (auto simp: coupled_def)

lemma coupled_g_add:
  assumes "coupled S x" and "p \<in> S"
  shows "coupled S (g_add x p)"
  using assms by (cases x) (simp add: coupled_def g_add_def add_def)

lemma coupled_g_roll:
  assumes "coupled S x"
  shows "coupled S (g_roll x)"
proof (cases x)
  case (Pair l g)
  show ?thesis
  proof (cases "0 < cpusum (a l)")
    case True
    with assms Pair have "members g \<noteq> []" by (auto dest: coupled_guard)
    with assms Pair True show ?thesis
      by (simp add: coupled_def g_roll_def roll_def appendAndReset_def note_division_def mean_def)
  next
    case False
    with assms Pair show ?thesis
      by (simp add: coupled_def g_roll_def roll_def appendAndReset_def note_division_def)
  qed
qed

lemma coupled_g_finish:
  assumes "coupled S x"
  shows "coupled S (g_finish x)"
proof (cases x)
  case (Pair l g)
  show ?thesis
  proof (cases "0 < cpusum (a l)")
    case True
    with assms Pair have "members g \<noteq> []" by (auto dest: coupled_guard)
    with assms Pair True show ?thesis
      by (simp add: coupled_def g_finish_def finish_def note_division_def mean_def)
  next
    case False
    with assms Pair show ?thesis
      by (simp add: coupled_def g_finish_def finish_def note_division_def)
  qed
qed

lemma coupled_durations:
  assumes "coupled S (l, g)" and "0 \<le> d"
  shows "coupled S (l\<lparr>durations := d\<rparr>, g)"
  using assms by (simp add: coupled_def)

lemma coupled_g_rollover:
  assumes "0 < rate" and "coupled S x"
  shows "\<exists>x'. g_rollover p start rate x = Some x' \<and> coupled S x'"
proof -
  from assms(2) have d0: "0 \<le> durations (fst x)" by (cases x) (simp add: coupled_def)
  from g_rollover_run [OF assms(1) d0, of p start] obtain d' where
    r: "g_rollover p start rate x
          = Some (if Time p < edge start (durations (fst x)) rate
                  then (case g_roll x of (l, g) \<Rightarrow> (l\<lparr>durations := d'\<rparr>, g))
                  else x)"
    and d': "if Time p < edge start (durations (fst x)) rate
             then durations (fst x) < d' \<and> Time p < edge start (d' - 1) rate
             else d' = durations (fst x)"
    by blast
  show ?thesis
  proof (cases "Time p < edge start (durations (fst x)) rate")
    case False
    with r assms(2) show ?thesis by simp
  next
    case True
    obtain l1 g1 where x1: "g_roll x = (l1, g1)" by (cases "g_roll x")
    from coupled_g_roll [OF assms(2)] have "coupled S (l1, g1)" by (simp add: x1)
    moreover from True d' d0 have "0 \<le> d'" by simp
    ultimately have "coupled S (l1\<lparr>durations := d'\<rparr>, g1)" by (rule coupled_durations)
    with r True x1 show ?thesis by simp
  qed
qed

lemma coupled_g_walk:
  assumes "0 < rate" and "set ps \<subseteq> S" and "coupled S x"
  shows "\<exists>x'. g_walk start length' rate x ps = Some x' \<and> coupled S x'"
  using assms(2,3)
proof (induction ps arbitrary: x)
  case Nil
  then show ?case by (simp add: coupled_g_finish)
next
  case (Cons p ps)
  from Cons.prems have pS: "p \<in> S" and sub: "set ps \<subseteq> S" by auto
  consider (old) "Time p < start + (-1 * length')"
    | (within) "\<not> Time p < start + (-1 * length')" "Time p > edge start (durations (fst x)) rate"
    | (beyond) "\<not> Time p < start + (-1 * length')" "\<not> Time p > edge start (durations (fst x)) rate"
    by blast
  then show ?case
  proof cases
    case old
    with Cons.prems show ?thesis by (simp add: coupled_g_finish)
  next
    case within
    from Cons.IH [OF sub coupled_g_add [OF Cons.prems(2) pS]] within
    show ?thesis by simp
  next
    case beyond
    from coupled_g_rollover [OF assms(1) Cons.prems(2), of p start] obtain x1 where
      x1: "g_rollover p start rate x = Some x1" and c1: "coupled S x1" by blast
    from Cons.IH [OF sub c1] beyond x1 show ?thesis by simp
  qed
qed

lemma walk_g_walk:
  assumes "0 < rate" and "coupled S x" and "set ps \<subseteq> S"
  shows "walk start length' rate (fst x) ps = map_option fst (g_walk start length' rate x ps)"
  using assms(2,3)
proof (induction ps arbitrary: x)
  case Nil
  then show ?case by (cases x) (simp add: g_finish_def)
next
  case (Cons p ps)
  from Cons.prems have pS: "p \<in> S" and sub: "set ps \<subseteq> S" by auto
  obtain l g where x: "x = (l, g)" by (cases x)
  from Cons.prems(1) have d0: "0 \<le> durations l" by (simp add: coupled_def x)
  consider (old) "Time p < start + (-1 * length')"
    | (within) "\<not> Time p < start + (-1 * length')" "Time p > edge start (durations l) rate"
    | (beyond) "\<not> Time p < start + (-1 * length')" "\<not> Time p > edge start (durations l) rate"
    by blast
  then show ?case
  proof cases
    case old
    then show ?thesis by (simp add: x g_finish_def)
  next
    case within
    have "fst (g_add x p) = add l p" by (simp add: g_add_def x)
    with Cons.IH [OF coupled_g_add [OF Cons.prems(1) pS] sub] within
    show ?thesis by (simp add: x)
  next
    case beyond
    from coupled_g_rollover [OF assms(1) Cons.prems(1), of p start] obtain x1 where
      x1: "g_rollover p start rate x = Some x1" and c1: "coupled S x1" by blast
    from rollover_g_rollover [OF assms(1) d0, of p start g] x1
    have "rollover p start rate l = Some (fst x1)" by (simp add: x)
    with Cons.IH [OF c1 sub] beyond x1 show ?thesis by (simp add: x)
  qed
qed

lemma average_ghost_coupled:
  assumes "0 < rate"
  shows "\<exists>l g. g_walk start length' rate (locals0, ghost0) (rev (Statistics s)) = Some (l, g) \<and>
               coupled (set (Statistics s)) (l, g) \<and>
               average_ghost s start length' rate = Some g \<and>
               average s start length' rate = Some (memaverages l, cpuaverages l)"
proof -
  have sub: "set (rev (Statistics s)) \<subseteq> set (Statistics s)" by simp
  from coupled_g_walk [OF assms sub coupled_init, of start length'] obtain l g where
    w: "g_walk start length' rate (locals0, ghost0) (rev (Statistics s)) = Some (l, g)"
    and c: "coupled (set (Statistics s)) (l, g)" by auto
  from walk_g_walk [OF assms coupled_init sub, of start length'] w
  have "walk start length' rate locals0 (rev (Statistics s)) = Some l" by simp
  then have "average s start length' rate = Some (memaverages l, cpuaverages l)"
    by (simp add: average_walk)
  with w c show ?thesis by (simp add: average_ghost_def)
qed

lemma map2_quotients:
  "map2 (\<lambda>ms n. sum_list (map f ms) / real_of_int n) xs (map (\<lambda>ms. int (length ms)) xs)
     = map (mean f) xs"
  by (induction xs) (simp_all add: mean_def)

subsection \<open>The walk stops at the first pulse before the window\<close>

lemma walk_stops_at_old:
  assumes "Time p < start + (-1 * length')"
  shows "walk start length' rate l (ps @ p # qs) = walk start length' rate l ps"
proof (induction ps arbitrary: l)
  case Nil
  from assms show ?case by simp
next
  case (Cons q ps)
  then show ?case by (simp split: option.splits)
qed

lemma average_stops_at_old:
  assumes "Time p < start + (-1 * length')"
  shows "average \<lparr>server.Name = n, Statistics = xs @ p # ys\<rparr> start length' rate
           = average \<lparr>server.Name = n', Statistics = ys\<rparr> start length' rate"
  using walk_stops_at_old [OF assms, of rate locals0 "rev ys" "rev xs"]
  by (simp add: average_walk)

lemma average_skips_old_prefix:
  assumes "\<forall>q \<in> set xs. Time q < start + (-1 * length')"
  shows "average \<lparr>server.Name = n, Statistics = xs @ ys\<rparr> start length' rate
           = average \<lparr>server.Name = n', Statistics = ys\<rparr> start length' rate"
proof (cases xs rule: rev_cases)
  case Nil
  then show ?thesis by (simp add: average_walk)
next
  case (snoc zs q)
  with assms have "Time q < start + (-1 * length')" by simp
  from average_stops_at_old [OF this, where n = n and xs = zs and ys = ys and n' = n' and rate = rate]
    snoc show ?thesis by simp
qed

subsection \<open>Histories in time order\<close>

lemma sum_list_positive:
  assumes "xs \<noteq> []" and "\<forall>x \<in> set xs. 0 < f x"
  shows "0 < sum_list (map f xs :: real list)"
  using assms
proof (induction xs)
  case Nil
  then show ?case by simp
next
  case (Cons x xs)
  show ?case
  proof (cases "xs = []")
    case True
    with Cons.prems show ?thesis by simp
  next
    case False
    with Cons have "0 < sum_list (map f xs)" by simp
    moreover from Cons.prems have "0 < f x" by simp
    ultimately show ?thesis by simp
  qed
qed

lemma coupled_guard_iff:
  assumes "coupled S (l, g)" and "\<forall>p \<in> S. 0 < Cpu p"
  shows "0 < cpusum (a l) \<longleftrightarrow> members g \<noteq> []"
proof
  assume "0 < cpusum (a l)"
  with assms(1) show "members g \<noteq> []" by (rule coupled_guard)
next
  assume ne: "members g \<noteq> []"
  from assms have "\<forall>p \<in> set (members g). 0 < Cpu p" by (auto simp: coupled_def)
  from sum_list_positive [OF ne this] assms(1) show "0 < cpusum (a l)"
    by (simp add: coupled_def)
qed

lemma filed_snoc:
  assumes "filed start length' rate g"
    and "\<forall>(j, ms) \<in> set (groups g). j < d"
    and "1 \<le> d"
    and "\<forall>p \<in> set ms. start - length' \<le> Time p \<and> in_bucket start rate d (Time p)"
  shows "filed start length' rate (g\<lparr>groups := groups g @ [(d, ms)], divisors := ds\<rparr>)"
  using assms by (auto simp: filed_def sorted_wrt_append)

lemma tidy_members_in_bucket:
  assumes "tidy start length' rate (l, g)"
  shows "\<forall>p \<in> set (members g).
           start - length' \<le> Time p \<and> in_bucket start rate (durations l) (Time p)"
  using assms by (auto simp: tidy_def in_bucket_def)

lemma filed_note_division:
  assumes "coupled S (l, g)" and "tidy start length' rate (l, g)"
  shows "filed start length' rate (note_division l g)"
proof (cases "0 < cpusum (a l)")
  case False
  with assms(2) show ?thesis by (simp add: note_division_def tidy_def)
next
  case True
  with assms(1) have "members g \<noteq> []" by (rule coupled_guard)
  with assms(2) have b: "bucket g = durations l" by (simp add: tidy_def)
  from assms(2) have f: "filed start length' rate g"
    and lt: "\<forall>(j, ms) \<in> set (groups g). j < durations l"
    and d1: "1 \<le> durations l" by (simp_all add: tidy_def)
  from filed_snoc [OF f lt d1 tidy_members_in_bucket [OF assms(2)]] True b
  show ?thesis by (simp add: note_division_def)
qed

lemma tidy_g_add:
  assumes "tidy start length' rate (l, g)"
    and "start - length' \<le> Time p"
    and "start - durations l * rate < Time p"
    and "Time p < start - (durations l - 1) * rate"
  shows "tidy start length' rate (g_add (l, g) p)"
  using assms by (simp add: tidy_def g_add_def add_def filed_def)

lemma tidy_g_roll:
  assumes "coupled S (l, g)" and "\<forall>p \<in> S. 0 < Cpu p"
    and "tidy start length' rate (l, g)" and "durations l < d'"
  shows "tidy start length' rate (case g_roll (l, g) of (l1, g1) \<Rightarrow> (l1\<lparr>durations := d'\<rparr>, g1))"
proof (cases "0 < cpusum (a l)")
  case True
  from filed_note_division [OF assms(1,3)]
  have f: "filed start length' rate (note_division l g)" .
  from assms(1) True have "members g \<noteq> []" by (rule coupled_guard)
  with assms(3) have b: "bucket g = durations l" by (simp add: tidy_def)
  from assms(3) have lt: "\<forall>(j, ms) \<in> set (groups g). j < durations l"
    and d1: "1 \<le> durations l" by (simp_all add: tidy_def)
  from lt assms(4) have lt': "\<forall>(j, ms) \<in> set (groups g). j < d'" by auto
  have f': "filed start length' rate
              ((note_division l g)\<lparr>members := []\<rparr>)"
    using f by (simp add: filed_def)
  show ?thesis
    using True f' lt' d1 assms(4) b
    by (simp add: tidy_def g_roll_def roll_def appendAndReset_def note_division_def)
next
  case False
  with coupled_guard_iff [OF assms(1,2)] have e: "members g = []" by simp
  from assms(3) have lt: "\<forall>(j, ms) \<in> set (groups g). j < durations l" by (simp add: tidy_def)
  from lt assms(4) have lt': "\<forall>(j, ms) \<in> set (groups g). j < d'" by auto
  from False e lt' assms(3,4) show ?thesis
    by (simp add: tidy_def g_roll_def roll_def appendAndReset_def note_division_def)
qed

lemma tidy_g_walk:
  assumes "Minute dvd rate" and "0 < rate" and "\<forall>p \<in> S. 0 < Cpu p"
    and "set ps \<subseteq> S" and "sorted_wrt (\<lambda>p q. Time q \<le> Time p) ps"
    and "coupled S x" and "tidy start length' rate x"
    and "\<forall>q \<in> set ps. Time q < start - (durations (fst x) - 1) * rate"
  shows "\<exists>x'. g_walk start length' rate x ps = Some x' \<and> filed start length' rate (snd x')"
  using assms(4-8)
proof (induction ps arbitrary: x)
  case Nil
  obtain l g where x: "x = (l, g)" by (cases x)
  from filed_note_division [of S l g start length' rate] Nil.prems
  show ?case by (simp add: x g_finish_def)
next
  case (Cons p ps)
  obtain l g where x: "x = (l, g)" by (cases x)
  let ?d = "durations l"
  note e = edge_dvd [OF assms(1)]
  from Cons.prems have pS: "p \<in> S" and sub: "set ps \<subseteq> S"
    and srt: "sorted_wrt (\<lambda>p q. Time q \<le> Time p) ps"
    and le: "\<forall>q \<in> set ps. Time q \<le> Time p"
    and c: "coupled S (l, g)" and t: "tidy start length' rate (l, g)"
    and up: "Time p < start - (?d - 1) * rate"
    and ups: "\<forall>q \<in> set ps. Time q < start - (?d - 1) * rate"
    by (simp_all add: x)
  consider (old) "Time p < start + (-1 * length')"
    | (within) "\<not> Time p < start + (-1 * length')" "Time p > edge start ?d rate"
    | (beyond) "\<not> Time p < start + (-1 * length')" "\<not> Time p > edge start ?d rate"
    by blast
  then show ?case
  proof cases
    case old
    from filed_note_division [OF c t] old show ?thesis by (simp add: x g_finish_def)
  next
    case within
    then have 1: "start - length' \<le> Time p" and 2: "start - ?d * rate < Time p"
      by (simp_all add: e)
    have d: "durations (fst (g_add x p)) = ?d" by (simp add: x g_add_def add_def)
    from Cons.IH [OF sub srt coupled_g_add [OF Cons.prems(3) pS], unfolded d]
      tidy_g_add [OF t 1 2 up] ups within
    show ?thesis by (simp add: x)
  next
    case beyond
    from c have d0: "0 \<le> durations (fst x)" by (simp add: coupled_def x)
    have dx: "durations (fst x) = ?d" by (simp add: x)
    from g_rollover_run [OF assms(2) d0, of p start, unfolded dx] obtain d' where
      r: "g_rollover p start rate x
            = Some (if Time p < edge start ?d rate
                    then (case g_roll x of (l, g) \<Rightarrow> (l\<lparr>durations := d'\<rparr>, g))
                    else x)"
      and d': "if Time p < edge start ?d rate
               then ?d < d' \<and> Time p < edge start (d' - 1) rate
               else d' = ?d"
      by blast
    show ?thesis
    proof (cases "Time p < edge start ?d rate")
      case False
      with r have r': "g_rollover p start rate x = Some x" by simp
      from Cons.IH [OF sub srt Cons.prems(3,4)] ups beyond r'
      show ?thesis by (simp add: x)
    next
      case True
      let ?x1 = "case g_roll x of (l, g) \<Rightarrow> (l\<lparr>durations := d'\<rparr>, g)"
      from True r have r': "g_rollover p start rate x = Some ?x1" by simp
      from True d' have lt: "?d < d'" and pd: "Time p < start - (d' - 1) * rate"
        by (simp_all add: e)
      have t1: "tidy start length' rate ?x1"
        using tidy_g_roll [OF c assms(3) t lt] by (simp add: x)
      from coupled_g_rollover [OF assms(2) Cons.prems(3), of p start] r'
      have c1: "coupled S ?x1" by simp
      have d1: "durations (fst ?x1) = d'" by (cases "g_roll x") simp
      from le pd have "\<forall>q \<in> set ps. Time q < start - (d' - 1) * rate" by auto
      with Cons.IH [OF sub srt c1 t1, unfolded d1] beyond r'
      show ?thesis by (simp add: x)
    qed
  qed
qed

subsection \<open>One pulse per minute\<close>

lemma roll_starved: "cpusum (a l) \<le> 0 \<Longrightarrow> roll l = l\<lparr>durations := durations l + 1\<rparr>"
  by (simp add: roll_def appendAndReset_def)

lemma rev_minutely_Suc:
  "rev (minutely t (Suc n))
     = \<lparr>pulse.Name = ''web-01'', Cpu = 1 + real n, Mem = 101 + real n, Time = t + int n * Minute\<rparr>
         # rev (minutely t n)"
  by simp

lemma walk_minutely_starved:
  assumes "cpusum (a l) \<le> 0" and "0 \<le> durations l"
    and "n = 0 \<or> t + (int n - 1) * Minute \<le> start - durations l * Minute"
  shows "\<exists>l'. walk start length' Minute l (rev (minutely t n)) = Some l' \<and>
              cpuaverages l' = cpuaverages l \<and> memaverages l' = memaverages l"
  using assms
proof (induction n arbitrary: l)
  case 0
  then show ?case by (simp add: finish_def)
next
  case (Suc n)
  let ?p = "\<lparr>pulse.Name = ''web-01'', Cpu = 1 + real n, Mem = 101 + real n,
             Time = t + int n * Minute\<rparr>"
  let ?d = "durations l"
  have M0: "0 < Minute" by (simp add: units)
  have e: "edge start d Minute = start - d * Minute" for d by (rule edge_dvd) simp
  from Suc.prems(3) have tp: "Time ?p \<le> start - ?d * Minute" by simp
  show ?case
  proof (cases "Time ?p < start + (-1 * length')")
    case True
    with Suc.prems(1) show ?thesis
      unfolding rev_minutely_Suc by (simp add: finish_def)
  next
    case False
    from tp have nw: "\<not> Time ?p > edge start ?d Minute" by (simp add: e)
    from rollover_run [OF M0 Suc.prems(2), of ?p start] obtain d' where
      r: "rollover ?p start Minute l
            = Some (if Time ?p < edge start ?d Minute then (roll l)\<lparr>durations := d'\<rparr> else l)"
      and d': "if Time ?p < edge start ?d Minute
               then ?d < d' \<and> Time ?p < edge start (d' - 1) Minute
               else d' = ?d"
      by blast
    let ?l1 = "l\<lparr>durations := d'\<rparr>"
    have r1: "rollover ?p start Minute l = Some ?l1"
    proof (cases "Time ?p < edge start ?d Minute")
      case True
      with r Suc.prems(1) show ?thesis by (simp add: roll_starved)
    next
      case False
      with d' have "d' = ?d" by simp
      with r False show ?thesis by simp
    qed
    have c1: "cpusum (a ?l1) \<le> 0" using Suc.prems(1) by simp
    have d1: "0 \<le> durations ?l1" using d' Suc.prems(2) by (simp split: if_splits)
    have b1: "n = 0 \<or> t + (int n - 1) * Minute \<le> start - durations ?l1 * Minute"
    proof (cases "Time ?p < edge start ?d Minute")
      case True
      with d' have "Time ?p < start - (d' - 1) * Minute" by (simp add: e)
      then show ?thesis by (simp add: algebra_simps)
    next
      case False
      with d' have "d' = ?d" by simp
      with tp M0 show ?thesis by (simp add: algebra_simps)
    qed
    from Suc.IH [OF c1 d1 b1] obtain l' where
      "walk start length' Minute ?l1 (rev (minutely t n)) = Some l'"
      and "cpuaverages l' = cpuaverages l" and "memaverages l' = memaverages l"
      by auto
    with False nw r1 show ?thesis
      unfolding rev_minutely_Suc by simp
  qed
qed

section \<open>The claims\<close>

subsection \<open>C1: which buckets appear\<close>

text \<open>
  The claim that a bucket appears exactly when a stored pulse falls in its interval, that
  is, that \<open>average\<close> returns what \<open>spec_average\<close> does, fails. At
  \<open>now\<close> = 2h, with length 60 minutes and bucket width one minute unless said
  otherwise:
  \<^item> pulses at \<open>now\<close> - 90s and \<open>now\<close> - 30s (in time order, positive cpu):
    the pulse that makes the loop move on to the next duration is not added to the
    accumulator, so the second bucket is missing;
  \<^item> pulses at \<open>now\<close> - 30s, - 90s, - 100s in this order of arrival: the single
    entry averages pulses of two buckets;
  \<^item> pulses at \<open>now\<close> - 80s, - 70s, - 10s, the last with cpu 0: the guard
    \<open>a.cpusum > 0\<close> neither appends nor resets, and the single entry averages pulses
    of two buckets;
  \<^item> length 60s and bucket width 30s, pulses at \<open>now\<close> - 40s, - 20s, - 10s: the
    edges are truncated to whole minutes, and the single entry averages pulses of two
    buckets;
  \<^item> one pulse at \<open>now\<close> + 5s: it is averaged although no bucket holds it.
\<close>

theorem average_buckets_counterexample:
  "average \<lparr>server.Name = ''web-01'', Statistics =
       [\<lparr>pulse.Name = ''web-01'', Cpu = 1, Mem = 10, Time = 2 * Hour - 90 * Second\<rparr>,
        \<lparr>pulse.Name = ''web-01'', Cpu = 3, Mem = 30, Time = 2 * Hour - 30 * Second\<rparr>]\<rparr>
     (2 * Hour) (60 * Minute) (1 * Minute) = Some ([30], [3]) \<and>
   spec_average
       [\<lparr>pulse.Name = ''web-01'', Cpu = 1, Mem = 10, Time = 2 * Hour - 90 * Second\<rparr>,
        \<lparr>pulse.Name = ''web-01'', Cpu = 3, Mem = 30, Time = 2 * Hour - 30 * Second\<rparr>]
     (2 * Hour) (60 * Minute) (1 * Minute) = ([30, 10], [3, 1]) \<and>
   average \<lparr>server.Name = ''web-01'', Statistics =
       [\<lparr>pulse.Name = ''web-01'', Cpu = 1, Mem = 10, Time = 2 * Hour - 30 * Second\<rparr>,
        \<lparr>pulse.Name = ''web-01'', Cpu = 3, Mem = 30, Time = 2 * Hour - 90 * Second\<rparr>,
        \<lparr>pulse.Name = ''web-01'', Cpu = 5, Mem = 50, Time = 2 * Hour - 100 * Second\<rparr>]\<rparr>
     (2 * Hour) (60 * Minute) (1 * Minute) = Some ([20], [2]) \<and>
   spec_average
       [\<lparr>pulse.Name = ''web-01'', Cpu = 1, Mem = 10, Time = 2 * Hour - 30 * Second\<rparr>,
        \<lparr>pulse.Name = ''web-01'', Cpu = 3, Mem = 30, Time = 2 * Hour - 90 * Second\<rparr>,
        \<lparr>pulse.Name = ''web-01'', Cpu = 5, Mem = 50, Time = 2 * Hour - 100 * Second\<rparr>]
     (2 * Hour) (60 * Minute) (1 * Minute) = ([10, 40], [1, 4]) \<and>
   average \<lparr>server.Name = ''web-01'', Statistics =
       [\<lparr>pulse.Name = ''web-01'', Cpu = 6, Mem = 20, Time = 2 * Hour - 80 * Second\<rparr>,
        \<lparr>pulse.Name = ''web-01'', Cpu = 9, Mem = 9, Time = 2 * Hour - 70 * Second\<rparr>,
        \<lparr>pulse.Name = ''web-01'', Cpu = 0, Mem = 10, Time = 2 * Hour - 10 * Second\<rparr>]\<rparr>
     (2 * Hour) (60 * Minute) (1 * Minute) = Some ([15], [3]) \<and>
   spec_average
       [\<lparr>pulse.Name = ''web-01'', Cpu = 6, Mem = 20, Time = 2 * Hour - 80 * Second\<rparr>,
        \<lparr>pulse.Name = ''web-01'', Cpu = 9, Mem = 9, Time = 2 * Hour - 70 * Second\<rparr>,
        \<lparr>pulse.Name = ''web-01'', Cpu = 0, Mem = 10, Time = 2 * Hour - 10 * Second\<rparr>]
     (2 * Hour) (60 * Minute) (1 * Minute) = ([10, 29 / 2], [0, 15 / 2]) \<and>
   average \<lparr>server.Name = ''web-01'', Statistics =
       [\<lparr>pulse.Name = ''web-01'', Cpu = 1, Mem = 10, Time = 2 * Hour - 40 * Second\<rparr>,
        \<lparr>pulse.Name = ''web-01'', Cpu = 3, Mem = 30, Time = 2 * Hour - 20 * Second\<rparr>,
        \<lparr>pulse.Name = ''web-01'', Cpu = 5, Mem = 50, Time = 2 * Hour - 10 * Second\<rparr>]\<rparr>
     (2 * Hour) (60 * Second) (30 * Second) = Some ([20], [2]) \<and>
   spec_average
       [\<lparr>pulse.Name = ''web-01'', Cpu = 1, Mem = 10, Time = 2 * Hour - 40 * Second\<rparr>,
        \<lparr>pulse.Name = ''web-01'', Cpu = 3, Mem = 30, Time = 2 * Hour - 20 * Second\<rparr>,
        \<lparr>pulse.Name = ''web-01'', Cpu = 5, Mem = 50, Time = 2 * Hour - 10 * Second\<rparr>]
     (2 * Hour) (60 * Second) (30 * Second) = ([40, 10], [4, 1]) \<and>
   average \<lparr>server.Name = ''web-01'', Statistics =
       [\<lparr>pulse.Name = ''web-01'', Cpu = 1, Mem = 10, Time = 2 * Hour + 5 * Second\<rparr>]\<rparr>
     (2 * Hour) (60 * Minute) (1 * Minute) = Some ([10], [1]) \<and>
   spec_average
       [\<lparr>pulse.Name = ''web-01'', Cpu = 1, Mem = 10, Time = 2 * Hour + 5 * Second\<rparr>]
     (2 * Hour) (60 * Minute) (1 * Minute) = ([], [])"
proof -
  have a1: "average \<lparr>server.Name = ''web-01'', Statistics =
       [\<lparr>pulse.Name = ''web-01'', Cpu = 1, Mem = 10, Time = 2 * Hour - 90 * Second\<rparr>,
        \<lparr>pulse.Name = ''web-01'', Cpu = 3, Mem = 30, Time = 2 * Hour - 30 * Second\<rparr>]\<rparr>
     (2 * Hour) (60 * Minute) (1 * Minute) = Some ([30], [3])"
    by (simp add: units) (simp add: run_defs split del: if_split)
  have s1: "spec_average
       [\<lparr>pulse.Name = ''web-01'', Cpu = 1, Mem = 10, Time = 2 * Hour - 90 * Second\<rparr>,
        \<lparr>pulse.Name = ''web-01'', Cpu = 3, Mem = 30, Time = 2 * Hour - 30 * Second\<rparr>]
     (2 * Hour) (60 * Minute) (1 * Minute) = ([30, 10], [3, 1])"
    by (simp add: units) (simp add: spec_defs)
  have a2: "average \<lparr>server.Name = ''web-01'', Statistics =
       [\<lparr>pulse.Name = ''web-01'', Cpu = 1, Mem = 10, Time = 2 * Hour - 30 * Second\<rparr>,
        \<lparr>pulse.Name = ''web-01'', Cpu = 3, Mem = 30, Time = 2 * Hour - 90 * Second\<rparr>,
        \<lparr>pulse.Name = ''web-01'', Cpu = 5, Mem = 50, Time = 2 * Hour - 100 * Second\<rparr>]\<rparr>
     (2 * Hour) (60 * Minute) (1 * Minute) = Some ([20], [2])"
    by (simp add: units) (simp add: run_defs split del: if_split)
  have s2: "spec_average
       [\<lparr>pulse.Name = ''web-01'', Cpu = 1, Mem = 10, Time = 2 * Hour - 30 * Second\<rparr>,
        \<lparr>pulse.Name = ''web-01'', Cpu = 3, Mem = 30, Time = 2 * Hour - 90 * Second\<rparr>,
        \<lparr>pulse.Name = ''web-01'', Cpu = 5, Mem = 50, Time = 2 * Hour - 100 * Second\<rparr>]
     (2 * Hour) (60 * Minute) (1 * Minute) = ([10, 40], [1, 4])"
    by (simp add: units) (simp add: spec_defs)
  have a3: "average \<lparr>server.Name = ''web-01'', Statistics =
       [\<lparr>pulse.Name = ''web-01'', Cpu = 6, Mem = 20, Time = 2 * Hour - 80 * Second\<rparr>,
        \<lparr>pulse.Name = ''web-01'', Cpu = 9, Mem = 9, Time = 2 * Hour - 70 * Second\<rparr>,
        \<lparr>pulse.Name = ''web-01'', Cpu = 0, Mem = 10, Time = 2 * Hour - 10 * Second\<rparr>]\<rparr>
     (2 * Hour) (60 * Minute) (1 * Minute) = Some ([15], [3])"
    by (simp add: units) (simp add: run_defs split del: if_split)
  have s3: "spec_average
       [\<lparr>pulse.Name = ''web-01'', Cpu = 6, Mem = 20, Time = 2 * Hour - 80 * Second\<rparr>,
        \<lparr>pulse.Name = ''web-01'', Cpu = 9, Mem = 9, Time = 2 * Hour - 70 * Second\<rparr>,
        \<lparr>pulse.Name = ''web-01'', Cpu = 0, Mem = 10, Time = 2 * Hour - 10 * Second\<rparr>]
     (2 * Hour) (60 * Minute) (1 * Minute) = ([10, 29 / 2], [0, 15 / 2])"
    by (simp add: units) (simp add: spec_defs)
  have a4: "average \<lparr>server.Name = ''web-01'', Statistics =
       [\<lparr>pulse.Name = ''web-01'', Cpu = 1, Mem = 10, Time = 2 * Hour - 40 * Second\<rparr>,
        \<lparr>pulse.Name = ''web-01'', Cpu = 3, Mem = 30, Time = 2 * Hour - 20 * Second\<rparr>,
        \<lparr>pulse.Name = ''web-01'', Cpu = 5, Mem = 50, Time = 2 * Hour - 10 * Second\<rparr>]\<rparr>
     (2 * Hour) (60 * Second) (30 * Second) = Some ([20], [2])"
    by (simp add: units) (simp add: run_defs edge_half split del: if_split)
  have s4: "spec_average
       [\<lparr>pulse.Name = ''web-01'', Cpu = 1, Mem = 10, Time = 2 * Hour - 40 * Second\<rparr>,
        \<lparr>pulse.Name = ''web-01'', Cpu = 3, Mem = 30, Time = 2 * Hour - 20 * Second\<rparr>,
        \<lparr>pulse.Name = ''web-01'', Cpu = 5, Mem = 50, Time = 2 * Hour - 10 * Second\<rparr>]
     (2 * Hour) (60 * Second) (30 * Second) = ([40, 10], [4, 1])"
    by (simp add: units) (simp add: spec_defs)
  have a5: "average \<lparr>server.Name = ''web-01'', Statistics =
       [\<lparr>pulse.Name = ''web-01'', Cpu = 1, Mem = 10, Time = 2 * Hour + 5 * Second\<rparr>]\<rparr>
     (2 * Hour) (60 * Minute) (1 * Minute) = Some ([10], [1])"
    by (simp add: units) (simp add: run_defs split del: if_split)
  have s5: "spec_average
       [\<lparr>pulse.Name = ''web-01'', Cpu = 1, Mem = 10, Time = 2 * Hour + 5 * Second\<rparr>]
     (2 * Hour) (60 * Minute) (1 * Minute) = ([], [])"
    by (simp add: units) (simp add: spec_defs)
  from a1 s1 a2 s2 a3 s3 a4 s4 a5 s5 show ?thesis by blast
qed

text \<open>
  C1, as the code has it. Let the bucket width be a positive whole number of minutes and
  the length \<open>k\<close> times the bucket width (\<open>k\<close> positive), and let the history
  be in time order (times do not decrease in the order of arrival) with every pulse earlier
  than \<open>now\<close> and of positive cpu. Then \<open>average\<close> returns, and its two
  sequences are the means, entry by entry, of the same groups of pulses; the groups carry
  strictly increasing bucket numbers between 1 and \<open>k\<close> (most recent bucket first),
  no group is empty, and the pulses of a group are stored pulses whose times all fall in
  the interval of the group's bucket. So a bucket appears only if a stored pulse falls in
  it, and a bucket without pulses is left out rather than reported with a zero. That every
  bucket holding a pulse appears is not stated.
\<close>

theorem average_entries_within_buckets:
  assumes "Minute dvd rate" and "0 < rate" and "0 < k" and "length' = k * rate"
    and "sorted_wrt (\<lambda>p q. Time p \<le> Time q) (Statistics s)"
    and "\<forall>p \<in> set (Statistics s). 0 < Cpu p \<and> Time p < start"
  shows "\<exists>g. average_ghost s start length' rate = Some g \<and>
             average s start length' rate
               = Some (map (mean Mem) (map snd (groups g)), map (mean Cpu) (map snd (groups g))) \<and>
             sorted_wrt (<) (map fst (groups g)) \<and>
             (\<forall>(j, ms) \<in> set (groups g).
                1 \<le> j \<and> j \<le> k \<and> ms \<noteq> [] \<and> set ms \<subseteq> set (Statistics s) \<and>
                (\<forall>p \<in> set ms. in_bucket start rate j (Time p)))"
proof -
  let ?S = "set (Statistics s)"
  from average_ghost_coupled [OF assms(2), of start length' s] obtain l g where
    w: "g_walk start length' rate (locals0, ghost0) (rev (Statistics s)) = Some (l, g)"
    and c: "coupled ?S (l, g)"
    and g: "average_ghost s start length' rate = Some g"
    and r: "average s start length' rate = Some (memaverages l, cpuaverages l)"
    by blast
  have pos: "\<forall>p \<in> ?S. 0 < Cpu p" using assms(6) by simp
  have sub: "set (rev (Statistics s)) \<subseteq> ?S" by simp
  have srt: "sorted_wrt (\<lambda>p q. Time q \<le> Time p) (rev (Statistics s))"
    using assms(5) by (simp add: sorted_wrt_rev)
  have t0: "tidy start length' rate (locals0, ghost0)"
    by (simp add: tidy_def filed_def locals0_def ghost0_def)
  have up: "\<forall>q \<in> set (rev (Statistics s)). Time q < start - (durations (fst (locals0, ghost0)) - 1) * rate"
    using assms(6) by (simp add: locals0_def)
  from tidy_g_walk [OF assms(1,2) pos sub srt coupled_init t0 up] w
  have f: "filed start length' rate g" by simp
  from c have m: "memaverages l = map (mean Mem) (map snd (groups g))"
    and cp: "cpuaverages l = map (mean Cpu) (map snd (groups g))"
    and ne: "\<forall>ms \<in> set (map snd (groups g)). ms \<noteq> [] \<and> set ms \<subseteq> ?S"
    by (simp_all add: coupled_def)
  have each: "1 \<le> j \<and> j \<le> k \<and> ms \<noteq> [] \<and> set ms \<subseteq> ?S \<and>
              (\<forall>p \<in> set ms. in_bucket start rate j (Time p))"
    if "(j, ms) \<in> set (groups g)" for j ms
  proof -
    from that ne have n1: "ms \<noteq> []" and n2: "set ms \<subseteq> ?S" by force+
    from that f have j1: "1 \<le> j"
      and ib: "\<forall>p \<in> set ms. start - length' \<le> Time p \<and> in_bucket start rate j (Time p)"
      by (auto simp: filed_def)
    from n1 obtain p where "p \<in> set ms" by (cases ms) auto
    with ib have "start - length' \<le> Time p" and "Time p < start - (j - 1) * rate"
      by (auto simp: in_bucket_def)
    then have "(j - 1) * rate < k * rate" unfolding assms(4) by simp
    with assms(2) have "j - 1 < k" by (simp only: mult_less_cancel_right_pos)
    with j1 n1 n2 ib show ?thesis by simp
  qed
  have "\<forall>(j, ms) \<in> set (groups g).
          1 \<le> j \<and> j \<le> k \<and> ms \<noteq> [] \<and> set ms \<subseteq> ?S \<and>
          (\<forall>p \<in> set ms. in_bucket start rate j (Time p))"
    using each by blast
  moreover from f have "sorted_wrt (<) (map fst (groups g))" by (simp add: filed_def)
  ultimately show ?thesis using g r m cp by simp
qed

text \<open>
  The hypotheses hold for the first history above, on which the instrumented run ends
  with the single group of bucket 1.
\<close>

theorem average_entries_within_buckets_witness:
  "Minute dvd 1 * Minute \<and> 0 < 1 * Minute \<and> (0::int) < 60 \<and> 60 * Minute = 60 * (1 * Minute) \<and>
   sorted_wrt (\<lambda>p q. Time p \<le> Time q)
     [\<lparr>pulse.Name = ''web-01'', Cpu = 1, Mem = 10, Time = 2 * Hour - 90 * Second\<rparr>,
      \<lparr>pulse.Name = ''web-01'', Cpu = 3, Mem = 30, Time = 2 * Hour - 30 * Second\<rparr>] \<and>
   (\<exists>g. average_ghost \<lparr>server.Name = ''web-01'', Statistics =
            [\<lparr>pulse.Name = ''web-01'', Cpu = 1, Mem = 10, Time = 2 * Hour - 90 * Second\<rparr>,
             \<lparr>pulse.Name = ''web-01'', Cpu = 3, Mem = 30, Time = 2 * Hour - 30 * Second\<rparr>]\<rparr>
          (2 * Hour) (60 * Minute) (1 * Minute) = Some g \<and>
        average \<lparr>server.Name = ''web-01'', Statistics =
            [\<lparr>pulse.Name = ''web-01'', Cpu = 1, Mem = 10, Time = 2 * Hour - 90 * Second\<rparr>,
             \<lparr>pulse.Name = ''web-01'', Cpu = 3, Mem = 30, Time = 2 * Hour - 30 * Second\<rparr>]\<rparr>
          (2 * Hour) (60 * Minute) (1 * Minute)
          = Some (map (mean Mem) (map snd (groups g)), map (mean Cpu) (map snd (groups g))) \<and>
        sorted_wrt (<) (map fst (groups g)) \<and>
        (\<forall>(j, ms) \<in> set (groups g).
           1 \<le> j \<and> j \<le> 60 \<and> ms \<noteq> [] \<and>
           set ms \<subseteq> set
            [\<lparr>pulse.Name = ''web-01'', Cpu = 1, Mem = 10, Time = 2 * Hour - 90 * Second\<rparr>,
             \<lparr>pulse.Name = ''web-01'', Cpu = 3, Mem = 30, Time = 2 * Hour - 30 * Second\<rparr>] \<and>
           (\<forall>p \<in> set ms. in_bucket (2 * Hour) (1 * Minute) j (Time p)))) \<and>
   average_ghost \<lparr>server.Name = ''web-01'', Statistics =
            [\<lparr>pulse.Name = ''web-01'', Cpu = 1, Mem = 10, Time = 2 * Hour - 90 * Second\<rparr>,
             \<lparr>pulse.Name = ''web-01'', Cpu = 3, Mem = 30, Time = 2 * Hour - 30 * Second\<rparr>]\<rparr>
          (2 * Hour) (60 * Minute) (1 * Minute)
     = Some \<lparr>members = [], bucket = 1,
             groups = [(1, [\<lparr>pulse.Name = ''web-01'', Cpu = 3, Mem = 30,
                             Time = 2 * Hour - 30 * Second\<rparr>])],
             divisors = [1]\<rparr>"
proof -
  let ?h = "[\<lparr>pulse.Name = ''web-01'', Cpu = 1, Mem = 10, Time = 2 * Hour - 90 * Second\<rparr>,
             \<lparr>pulse.Name = ''web-01'', Cpu = 3, Mem = 30, Time = 2 * Hour - 30 * Second\<rparr>]"
  let ?s = "\<lparr>server.Name = ''web-01'', Statistics = ?h\<rparr>"
  have h1: "Minute dvd 1 * Minute" by simp
  have h2: "0 < 1 * Minute" by (simp add: units)
  have h3: "(0::int) < 60" by simp
  have h4: "60 * Minute = 60 * (1 * Minute)" by simp
  have h5: "sorted_wrt (\<lambda>p q. Time p \<le> Time q) (Statistics ?s)" by (simp add: units)
  have h6: "\<forall>p \<in> set (Statistics ?s). 0 < Cpu p \<and> Time p < 2 * Hour" by (simp add: units)
  have ev: "average_ghost ?s (2 * Hour) (60 * Minute) (1 * Minute)
     = Some \<lparr>members = [], bucket = 1,
             groups = [(1, [\<lparr>pulse.Name = ''web-01'', Cpu = 3, Mem = 30,
                             Time = 2 * Hour - 30 * Second\<rparr>])],
             divisors = [1]\<rparr>"
    by (simp add: units) (simp add: ghost_defs split del: if_split)
  have th: "\<exists>g. average_ghost ?s (2 * Hour) (60 * Minute) (1 * Minute) = Some g \<and>
        average ?s (2 * Hour) (60 * Minute) (1 * Minute)
          = Some (map (mean Mem) (map snd (groups g)), map (mean Cpu) (map snd (groups g))) \<and>
        sorted_wrt (<) (map fst (groups g)) \<and>
        (\<forall>(j, ms) \<in> set (groups g).
           1 \<le> j \<and> j \<le> 60 \<and> ms \<noteq> [] \<and> set ms \<subseteq> set ?h \<and>
           (\<forall>p \<in> set ms. in_bucket (2 * Hour) (1 * Minute) j (Time p)))"
    using average_entries_within_buckets [OF h1 h2 h3 h4 h5 h6] by (simp only: server.simps)
  from h1 h2 h3 h4 h5 have hs: "Minute dvd 1 * Minute \<and> 0 < 1 * Minute \<and> (0::int) < 60 \<and>
    60 * Minute = 60 * (1 * Minute) \<and> sorted_wrt (\<lambda>p q. Time p \<le> Time q) ?h"
    by (simp only: server.simps)
  from hs th ev show ?thesis by (intro conjI) (erule conjE | assumption)+
qed

subsection \<open>C2: two samples in one bucket\<close>

text \<open>
  The history of exactly the two samples (cpu 10, mem 50, time \<open>T\<close>) and (cpu 20,
  mem 60, time \<open>T\<close> + 30s), queried with length 60 minutes and bucket width one
  minute. When \<open>now\<close> lies from \<open>T\<close> + 30s up to, but not including,
  \<open>T\<close> + 60s, both samples pass the test of the first duration and the result is
  one bucket with memory average 55 and cpu average 15.
\<close>

lemma average_two_samples_latest_minute:
  assumes "T + 30 * Second \<le> now" and "now < T + 60 * Second"
  shows "average \<lparr>server.Name = ''web-01'',
                  Statistics = [\<lparr>pulse.Name = ''web-01'', Cpu = 10, Mem = 50, Time = T\<rparr>,
                                \<lparr>pulse.Name = ''web-01'', Cpu = 20, Mem = 60,
                                   Time = T + 30 * Second\<rparr>]\<rparr>
           now (60 * Minute) (1 * Minute) = Some ([55], [15])"
  using assms
  by (simp add: units) (simp add: run_defs split del: if_split)

text \<open>
  C2 asks for that one bucket (memory 55, cpu 15) whenever the two samples lie in the same
  one-minute bucket. For a query at \<open>T\<close> + 100s both samples lie in bucket 2 and the
  aggregation of the specification gives that bucket, but \<open>average\<close> returns memory
  50 and cpu 10: the sample at \<open>T\<close> + 30s moves \<open>durations\<close> on and is not
  added to the accumulator. For a query at \<open>T\<close> + 60s both samples lie in bucket 1,
  but \<open>average\<close> returns memory 60 and cpu 20: the sample at \<open>T\<close> is exactly
  on the edge, neither after nor before it, and is skipped.
\<close>

theorem average_two_samples_same_bucket_dropped:
  "in_bucket (T + 100 * Second) (1 * Minute) 2 T \<and>
   in_bucket (T + 100 * Second) (1 * Minute) 2 (T + 30 * Second) \<and>
   spec_average [\<lparr>pulse.Name = ''web-01'', Cpu = 10, Mem = 50, Time = T\<rparr>,
                 \<lparr>pulse.Name = ''web-01'', Cpu = 20, Mem = 60, Time = T + 30 * Second\<rparr>]
     (T + 100 * Second) (60 * Minute) (1 * Minute) = ([55], [15]) \<and>
   average \<lparr>server.Name = ''web-01'',
            Statistics = [\<lparr>pulse.Name = ''web-01'', Cpu = 10, Mem = 50, Time = T\<rparr>,
                          \<lparr>pulse.Name = ''web-01'', Cpu = 20, Mem = 60,
                             Time = T + 30 * Second\<rparr>]\<rparr>
     (T + 100 * Second) (60 * Minute) (1 * Minute) = Some ([50], [10]) \<and>
   in_bucket (T + 60 * Second) (1 * Minute) 1 T \<and>
   in_bucket (T + 60 * Second) (1 * Minute) 1 (T + 30 * Second) \<and>
   spec_average [\<lparr>pulse.Name = ''web-01'', Cpu = 10, Mem = 50, Time = T\<rparr>,
                 \<lparr>pulse.Name = ''web-01'', Cpu = 20, Mem = 60, Time = T + 30 * Second\<rparr>]
     (T + 60 * Second) (60 * Minute) (1 * Minute) = ([55], [15]) \<and>
   average \<lparr>server.Name = ''web-01'',
            Statistics = [\<lparr>pulse.Name = ''web-01'', Cpu = 10, Mem = 50, Time = T\<rparr>,
                          \<lparr>pulse.Name = ''web-01'', Cpu = 20, Mem = 60,
                             Time = T + 30 * Second\<rparr>]\<rparr>
     (T + 60 * Second) (60 * Minute) (1 * Minute) = Some ([60], [20])"
proof -
  let ?h = "[\<lparr>pulse.Name = ''web-01'', Cpu = 10, Mem = 50, Time = T\<rparr>,
             \<lparr>pulse.Name = ''web-01'', Cpu = 20, Mem = 60, Time = T + 30 * Second\<rparr>]"
  let ?s = "\<lparr>server.Name = ''web-01'', Statistics = ?h\<rparr>"
  have b1: "in_bucket (T + 100 * Second) (1 * Minute) 2 T \<and>
            in_bucket (T + 100 * Second) (1 * Minute) 2 (T + 30 * Second)"
    by (simp add: in_bucket_def units)
  have s1: "spec_average ?h (T + 100 * Second) (60 * Minute) (1 * Minute) = ([55], [15])"
    by (simp add: units) (simp add: spec_defs)
  have a1: "average ?s (T + 100 * Second) (60 * Minute) (1 * Minute) = Some ([50], [10])"
    by (simp add: units) (simp add: run_defs split del: if_split)
  have b2: "in_bucket (T + 60 * Second) (1 * Minute) 1 T \<and>
            in_bucket (T + 60 * Second) (1 * Minute) 1 (T + 30 * Second)"
    by (simp add: in_bucket_def units)
  have s2: "spec_average ?h (T + 60 * Second) (60 * Minute) (1 * Minute) = ([55], [15])"
    by (simp add: units) (simp add: spec_defs)
  have a2: "average ?s (T + 60 * Second) (60 * Minute) (1 * Minute) = Some ([60], [20])"
    by (simp add: units) (simp add: run_defs split del: if_split)
  from b1 s1 a1 b2 s2 a2 show ?thesis by blast
qed

subsection \<open>C3: one pulse per minute for seventy minutes\<close>

text \<open>
  C3 asks for sixty buckets on a history of seventy pulses, one per minute, the latest of
  them thirty seconds before \<open>now\<close>. On this history \<open>average\<close> returns a
  single bucket, that of the latest pulse (cpu 70, memory 170): each older pulse lies
  before the current duration, moves \<open>durations\<close> on, and is not added to the
  accumulator.
\<close>

theorem average_seventy_minutes_one_bucket:
  "average \<lparr>server.Name = ''web-01'',
            Statistics = minutely (now - 69 * Minute - 30 * Second) 70\<rparr>
     now (60 * Minute) (1 * Minute) = Some ([170], [70])"
proof -
  let ?t = "now - 69 * Minute - 30 * Second"
  let ?l2 = "\<lparr>a = \<lparr>count = 0, memsum = 0, cpusum = 0\<rparr>,
              cpuaverages = [70], memaverages = [170], durations = 2\<rparr>"
  have e: "edge start d Minute = start - d * Minute" for start d by (rule edge_dvd) simp
  have n: "(70::nat) = Suc (Suc 68)" by simp
  have "walk now (60 * Minute) Minute locals0 (rev (minutely ?t 70))
          = walk now (60 * Minute) Minute ?l2 (rev (minutely ?t 68))"
    unfolding n rev_minutely_Suc
    by (simp add: locals0_def edge_whole rollover.simps add_def roll_def appendAndReset_def units
        split del: if_split)
  moreover have "\<exists>l'. walk now (60 * Minute) Minute ?l2 (rev (minutely ?t 68)) = Some l' \<and>
                   cpuaverages l' = cpuaverages ?l2 \<and> memaverages l' = memaverages ?l2"
    by (rule walk_minutely_starved) (simp_all add: units)
  ultimately show ?thesis by (auto simp: average_walk)
qed

subsection \<open>C4: a pulse before the window\<close>

text \<open>
  C4. For length 24 hours and bucket width one hour, a pulse whose time is
  \<open>now\<close> - 25h takes part in nothing: \<open>average\<close> returns, and returns what it
  returns on the pulses that arrived after that pulse alone, whatever the cpu and memory
  of the pulse are; and when the pulses that arrived before it are not later than it, the
  result is that of the history without the pulse.
\<close>

theorem average_ignores_pulse_before_window:
  assumes "Time p = start - 25 * Hour"
  shows "(\<exists>r. average \<lparr>server.Name = n, Statistics = xs @ p # ys\<rparr> start (Hour * 24) (Hour * 1) = Some r \<and>
              average \<lparr>server.Name = n, Statistics = ys\<rparr> start (Hour * 24) (Hour * 1) = Some r) \<and>
         ((\<forall>q \<in> set xs. Time q \<le> Time p) \<longrightarrow>
            average \<lparr>server.Name = n, Statistics = xs @ p # ys\<rparr> start (Hour * 24) (Hour * 1)
              = average \<lparr>server.Name = n, Statistics = xs @ ys\<rparr> start (Hour * 24) (Hour * 1))"
proof -
  have H: "0 < Hour * 1" by (simp add: units)
  from assms have old: "Time p < start + (-1 * (Hour * 24))" by (simp add: units)
  from average_ghost_coupled [OF H, of start "Hour * 24" "\<lparr>server.Name = n, Statistics = ys\<rparr>"]
  obtain r where r: "average \<lparr>server.Name = n, Statistics = ys\<rparr> start (Hour * 24) (Hour * 1) = Some r"
    by blast
  have 1: "average \<lparr>server.Name = n, Statistics = xs @ p # ys\<rparr> start (Hour * 24) (Hour * 1)
             = average \<lparr>server.Name = n, Statistics = ys\<rparr> start (Hour * 24) (Hour * 1)"
    by (rule average_stops_at_old [OF old])
  have 2: "average \<lparr>server.Name = n, Statistics = xs @ p # ys\<rparr> start (Hour * 24) (Hour * 1)
             = average \<lparr>server.Name = n, Statistics = xs @ ys\<rparr> start (Hour * 24) (Hour * 1)"
    if "\<forall>q \<in> set xs. Time q \<le> Time p"
  proof -
    from that old have "\<forall>q \<in> set xs. Time q < start + (-1 * (Hour * 24))" by auto
    from average_skips_old_prefix [OF this, where n = n and ys = ys and n' = n and rate = "Hour * 1"] 1
    show ?thesis by simp
  qed
  from r 1 2 show ?thesis by simp
qed

text \<open>
  A history of a pulse at \<open>now\<close> - 26h, the pulse at \<open>now\<close> - 25h and a pulse
  at \<open>now\<close> - 30min: the result is the single bucket of the last pulse.
\<close>

theorem average_ignores_pulse_before_window_witness:
  "Time \<lparr>pulse.Name = ''web-01'', Cpu = 7, Mem = 70, Time = 100 * Hour - 25 * Hour\<rparr>
     = 100 * Hour - 25 * Hour \<and>
   (\<exists>r. average \<lparr>server.Name = ''web-01'', Statistics =
             [\<lparr>pulse.Name = ''web-01'', Cpu = 9, Mem = 90, Time = 100 * Hour - 26 * Hour\<rparr>] @
             \<lparr>pulse.Name = ''web-01'', Cpu = 7, Mem = 70, Time = 100 * Hour - 25 * Hour\<rparr> #
             [\<lparr>pulse.Name = ''web-01'', Cpu = 10, Mem = 50, Time = 100 * Hour - 30 * Minute\<rparr>]\<rparr>
           (100 * Hour) (Hour * 24) (Hour * 1) = Some r \<and>
        average \<lparr>server.Name = ''web-01'', Statistics =
             [\<lparr>pulse.Name = ''web-01'', Cpu = 10, Mem = 50, Time = 100 * Hour - 30 * Minute\<rparr>]\<rparr>
           (100 * Hour) (Hour * 24) (Hour * 1) = Some r) \<and>
   average \<lparr>server.Name = ''web-01'', Statistics =
             [\<lparr>pulse.Name = ''web-01'', Cpu = 9, Mem = 90, Time = 100 * Hour - 26 * Hour\<rparr>] @
             \<lparr>pulse.Name = ''web-01'', Cpu = 7, Mem = 70, Time = 100 * Hour - 25 * Hour\<rparr> #
             [\<lparr>pulse.Name = ''web-01'', Cpu = 10, Mem = 50, Time = 100 * Hour - 30 * Minute\<rparr>]\<rparr>
           (100 * Hour) (Hour * 24) (Hour * 1)
     = average \<lparr>server.Name = ''web-01'', Statistics =
             [\<lparr>pulse.Name = ''web-01'', Cpu = 9, Mem = 90, Time = 100 * Hour - 26 * Hour\<rparr>] @
             [\<lparr>pulse.Name = ''web-01'', Cpu = 10, Mem = 50, Time = 100 * Hour - 30 * Minute\<rparr>]\<rparr>
           (100 * Hour) (Hour * 24) (Hour * 1) \<and>
   average \<lparr>server.Name = ''web-01'', Statistics =
             [\<lparr>pulse.Name = ''web-01'', Cpu = 10, Mem = 50, Time = 100 * Hour - 30 * Minute\<rparr>]\<rparr>
           (100 * Hour) (Hour * 24) (Hour * 1) = Some ([50], [10])"
proof -
  let ?q = "\<lparr>pulse.Name = ''web-01'', Cpu = 9, Mem = 90, Time = 100 * Hour - 26 * Hour\<rparr>"
  let ?p = "\<lparr>pulse.Name = ''web-01'', Cpu = 7, Mem = 70, Time = 100 * Hour - 25 * Hour\<rparr>"
  let ?r = "\<lparr>pulse.Name = ''web-01'', Cpu = 10, Mem = 50, Time = 100 * Hour - 30 * Minute\<rparr>"
  have h: "Time ?p = 100 * Hour - 25 * Hour" by simp
  have o: "\<forall>q \<in> set [?q]. Time q \<le> Time ?p" by (simp add: units)
  have ev: "average \<lparr>server.Name = ''web-01'', Statistics = [?r]\<rparr>
              (100 * Hour) (Hour * 24) (Hour * 1) = Some ([50], [10])"
    by (simp add: units) (simp add: run_defs split del: if_split)
  from average_ignores_pulse_before_window [OF h, of "''web-01''" "[?q]" "[?r]"] o h ev
  show ?thesis by blast
qed

subsection \<open>C5: unknown server and empty history\<close>

text \<open>
  C5 asks for a NotFound signal when the name was never recorded, distinct from the
  success with an empty result for a known server without pulses. The two outcomes of
  \<open>get\<close> do differ, and the second is status 200 without an error and with the note
  that there is no update information. But for a name that is not in the context
  \<open>get\<close> returns the status 500 with the error
  \<open>No server information found for '...'.\<close>, so that \<open>ServeHTTP\<close> answers
  with \<open>http.Error\<close> under \<open>http.StatusInternalServerError\<close>; its case for
  \<open>http.StatusNotFound\<close> is not reached.
\<close>

theorem get_unknown_returns_500:
  assumes "servers c1 srv = None"
    and "servers c2 srv = Some s" and "Statistics s = []"
  shows "get c1 now60 now24 srv
           = Some (None, 500,
                   Some (''No server information found for '' @ [CHR 0x27] @ srv @ [CHR 0x27] @ ''.'')) \<and>
         map_option ServeHTTP (get c1 now60 now24 srv)
           = Some (None, Some (ErrorPage StatusInternalServerError)) \<and>
         map_option ServeHTTP (get c1 now60 now24 srv) \<noteq> Some (None, Some NotFoundPage) \<and>
         get c2 now60 now24 srv = Some (Some (NoUpdate srv), 200, None) \<and>
         map_option ServeHTTP (get c2 now60 now24 srv) = Some (Some (NoUpdate srv), None) \<and>
         get c1 now60 now24 srv \<noteq> get c2 now60 now24 srv"
  using assms
  by (simp add: get_def ServeHTTP_def StatusNotFound_def StatusInternalServerError_def)

text \<open>An empty context, and a context whose only server has no pulse yet.\<close>

theorem get_unknown_returns_500_witness:
  "servers \<lparr>servers = Map.empty\<rparr> ''web-01'' = None \<and>
   servers \<lparr>servers = [''web-01'' \<mapsto> \<lparr>server.Name = ''web-01'', Statistics = []\<rparr>]\<rparr> ''web-01''
     = Some \<lparr>server.Name = ''web-01'', Statistics = []\<rparr> \<and>
   Statistics \<lparr>server.Name = ''web-01'', Statistics = []\<rparr> = [] \<and>
   get \<lparr>servers = Map.empty\<rparr> 0 0 ''web-01''
     = Some (None, 500,
             Some (''No server information found for '' @ [CHR 0x27] @ ''web-01'' @ [CHR 0x27] @ ''.'')) \<and>
   map_option ServeHTTP (get \<lparr>servers = Map.empty\<rparr> 0 0 ''web-01'')
     = Some (None, Some (ErrorPage StatusInternalServerError)) \<and>
   map_option ServeHTTP (get \<lparr>servers = Map.empty\<rparr> 0 0 ''web-01'')
     \<noteq> Some (None, Some NotFoundPage) \<and>
   get \<lparr>servers = [''web-01'' \<mapsto> \<lparr>server.Name = ''web-01'', Statistics = []\<rparr>]\<rparr> 0 0 ''web-01''
     = Some (Some (NoUpdate ''web-01''), 200, None) \<and>
   map_option ServeHTTP
     (get \<lparr>servers = [''web-01'' \<mapsto> \<lparr>server.Name = ''web-01'', Statistics = []\<rparr>]\<rparr> 0 0 ''web-01'')
     = Some (Some (NoUpdate ''web-01''), None) \<and>
   get \<lparr>servers = Map.empty\<rparr> 0 0 ''web-01''
     \<noteq> get \<lparr>servers = [''web-01'' \<mapsto> \<lparr>server.Name = ''web-01'', Statistics = []\<rparr>]\<rparr> 0 0 ''web-01''"
proof -
  let ?c1 = "\<lparr>servers = Map.empty\<rparr>"
  let ?s = "\<lparr>server.Name = ''web-01'', Statistics = []\<rparr>"
  let ?c2 = "\<lparr>servers = [''web-01'' \<mapsto> ?s]\<rparr>"
  have h1: "servers ?c1 ''web-01'' = None" by simp
  have h2: "servers ?c2 ''web-01'' = Some ?s" by simp
  have h3: "Statistics ?s = []" by simp
  from get_unknown_returns_500 [OF h1 h2 h3, of 0 0] h1 h2 h3
  show ?thesis by blast
qed

subsection \<open>C6: the empty server name\<close>

text \<open>
  The claim that a pulse with the empty name is rejected and leaves the store unchanged
  fails: on the empty context \<open>upsert\<close> stores the pulse under the empty key and
  returns status 200 without an error.
\<close>

theorem upsert_empty_name_counterexample:
  "upsert \<lparr>servers = Map.empty\<rparr> \<lparr>pulse.Name = '''', Cpu = 1, Mem = 2, Time = 0\<rparr>
     = (\<lparr>servers = ['''' \<mapsto> \<lparr>server.Name = '''',
                 Statistics = [\<lparr>pulse.Name = '''', Cpu = 1, Mem = 2, Time = 0\<rparr>]\<rparr>]\<rparr>, 200, None) \<and>
   fst (upsert \<lparr>servers = Map.empty\<rparr> \<lparr>pulse.Name = '''', Cpu = 1, Mem = 2, Time = 0\<rparr>)
     \<noteq> \<lparr>servers = Map.empty\<rparr>"
  by (simp add: upsert_def)

text \<open>
  C6, as the code has it. \<open>upsert\<close> of a pulse with the empty name returns status
  200 and no error, the history under the empty key is the history that was there (none
  if the key was new) followed by the pulse, and the store has changed.
\<close>

theorem upsert_empty_name_stored:
  "snd (upsert c (s\<lparr>pulse.Name := ''''\<rparr>)) = (200, None) \<and>
   map_option Statistics (servers (fst (upsert c (s\<lparr>pulse.Name := ''''\<rparr>))) '''')
     = Some ((case servers c '''' of None \<Rightarrow> [] | Some v \<Rightarrow> Statistics v) @ [s\<lparr>pulse.Name := ''''\<rparr>]) \<and>
   fst (upsert c (s\<lparr>pulse.Name := ''''\<rparr>)) \<noteq> c"
proof -
  let ?s = "s\<lparr>pulse.Name := ''''\<rparr>"
  have 1: "snd (upsert c ?s) = (200, None)" by (simp add: upsert_def Let_def)
  have 2: "map_option Statistics (servers (fst (upsert c ?s)) '''')
     = Some ((case servers c '''' of None \<Rightarrow> [] | Some v \<Rightarrow> Statistics v) @ [?s])"
    by (simp add: upsert_def Let_def split: option.splits)
  have "map_option Statistics (servers c '''') \<noteq> map_option Statistics (servers (fst (upsert c ?s)) '''')"
    unfolding 2 by (cases "servers c ''''") auto
  then have 3: "fst (upsert c ?s) \<noteq> c" by auto
  from 1 2 3 show ?thesis by blast
qed

subsection \<open>C7: a length that is no multiple of the bucket width\<close>

text \<open>
  The claim that a query whose length is no multiple of the bucket width is rejected
  fails: with length 90s and bucket width 60s, \<open>average\<close> returns one bucket for the
  pulses at \<open>now\<close> - 70s, - 30s and - 20s.
\<close>

theorem average_indivisible_window_counterexample:
  "\<not> (60 * Second) dvd (90 * Second) \<and>
   average \<lparr>server.Name = ''web-01'', Statistics =
       [\<lparr>pulse.Name = ''web-01'', Cpu = 1, Mem = 10, Time = 2 * Hour - 70 * Second\<rparr>,
        \<lparr>pulse.Name = ''web-01'', Cpu = 3, Mem = 30, Time = 2 * Hour - 30 * Second\<rparr>,
        \<lparr>pulse.Name = ''web-01'', Cpu = 5, Mem = 50, Time = 2 * Hour - 20 * Second\<rparr>]\<rparr>
     (2 * Hour) (90 * Second) (60 * Second) = Some ([40], [4])"
  by (simp add: units) (simp add: run_defs split del: if_split)

text \<open>
  C7, as the code has it. \<open>average\<close> does not check the window: for every history,
  every positive bucket width and every length that is no multiple of it,
  \<open>average\<close> returns a result, a memory sequence and a cpu sequence of the same
  length.
\<close>

theorem average_indivisible_window_accepted:
  assumes "0 < rate" and "\<not> rate dvd length'"
  shows "\<exists>mems cpus. average s start length' rate = Some (mems, cpus) \<and>
                      length mems = length cpus"
proof -
  from average_ghost_coupled [OF assms(1), of start length' s] obtain l g where
    c: "coupled (set (Statistics s)) (l, g)"
    and r: "average s start length' rate = Some (memaverages l, cpuaverages l)"
    by blast
  from c have "length (memaverages l) = length (cpuaverages l)" by (simp add: coupled_def)
  with r show ?thesis by blast
qed

text \<open>
  Length 90s and bucket width 60s on the history above.
\<close>

theorem average_indivisible_window_accepted_witness:
  "(0::int) < 60 * Second \<and> \<not> (60 * Second) dvd (90 * Second) \<and>
   (\<exists>mems cpus.
      average \<lparr>server.Name = ''web-01'', Statistics =
          [\<lparr>pulse.Name = ''web-01'', Cpu = 1, Mem = 10, Time = 2 * Hour - 70 * Second\<rparr>,
           \<lparr>pulse.Name = ''web-01'', Cpu = 3, Mem = 30, Time = 2 * Hour - 30 * Second\<rparr>,
           \<lparr>pulse.Name = ''web-01'', Cpu = 5, Mem = 50, Time = 2 * Hour - 20 * Second\<rparr>]\<rparr>
        (2 * Hour) (90 * Second) (60 * Second) = Some (mems, cpus) \<and>
      length mems = length cpus)"
proof -
  have h1: "(0::int) < 60 * Second" by (simp add: units)
  have h2: "\<not> (60 * Second) dvd (90 * Second)" by (simp add: units)
  from average_indivisible_window_accepted [OF h1 h2] h1 h2 show ?thesis by blast
qed

subsection \<open>C8: the two sequences are aligned\<close>

text \<open>
  C8. For every history and every window of positive bucket width, \<open>average\<close>
  returns a memory sequence and a cpu sequence of the same length, and the entries at the
  same position are the memory mean and the cpu mean of one and the same non-empty group
  of stored pulses, the group that the instrumented run records for that division.
\<close>

theorem average_metrics_aligned:
  assumes "0 < rate"
  shows "\<exists>g mems cpus.
           average_ghost s start length' rate = Some g \<and>
           average s start length' rate = Some (mems, cpus) \<and>
           length mems = length cpus \<and>
           mems = map (mean Mem) (map snd (groups g)) \<and>
           cpus = map (mean Cpu) (map snd (groups g)) \<and>
           (\<forall>ms \<in> set (map snd (groups g)). ms \<noteq> [] \<and> set ms \<subseteq> set (Statistics s))"
proof -
  from average_ghost_coupled [OF assms, of start length' s] obtain l g where
    c: "coupled (set (Statistics s)) (l, g)"
    and g: "average_ghost s start length' rate = Some g"
    and r: "average s start length' rate = Some (memaverages l, cpuaverages l)"
    by blast
  from c have "memaverages l = map (mean Mem) (map snd (groups g))"
    and "cpuaverages l = map (mean Cpu) (map snd (groups g))"
    and "\<forall>ms \<in> set (map snd (groups g)). ms \<noteq> [] \<and> set ms \<subseteq> set (Statistics s)"
    by (simp_all add: coupled_def)
  with g r show ?thesis by simp
qed

text \<open>
  Two pulses in the latest minute: one group, divided by 2.
\<close>

theorem average_metrics_aligned_witness:
  "(0::int) < 1 * Minute \<and>
   (\<exists>g mems cpus.
      average_ghost \<lparr>server.Name = ''web-01'', Statistics =
          [\<lparr>pulse.Name = ''web-01'', Cpu = 10, Mem = 50, Time = 2 * Hour - 31 * Second\<rparr>,
           \<lparr>pulse.Name = ''web-01'', Cpu = 20, Mem = 60, Time = 2 * Hour - 1 * Second\<rparr>]\<rparr>
        (2 * Hour) (60 * Minute) (1 * Minute) = Some g \<and>
      average \<lparr>server.Name = ''web-01'', Statistics =
          [\<lparr>pulse.Name = ''web-01'', Cpu = 10, Mem = 50, Time = 2 * Hour - 31 * Second\<rparr>,
           \<lparr>pulse.Name = ''web-01'', Cpu = 20, Mem = 60, Time = 2 * Hour - 1 * Second\<rparr>]\<rparr>
        (2 * Hour) (60 * Minute) (1 * Minute) = Some (mems, cpus) \<and>
      length mems = length cpus \<and>
      mems = map (mean Mem) (map snd (groups g)) \<and>
      cpus = map (mean Cpu) (map snd (groups g)) \<and>
      (\<forall>ms \<in> set (map snd (groups g)). ms \<noteq> [] \<and>
         set ms \<subseteq> set (Statistics \<lparr>server.Name = ''web-01'', Statistics =
          [\<lparr>pulse.Name = ''web-01'', Cpu = 10, Mem = 50, Time = 2 * Hour - 31 * Second\<rparr>,
           \<lparr>pulse.Name = ''web-01'', Cpu = 20, Mem = 60, Time = 2 * Hour - 1 * Second\<rparr>]\<rparr>))) \<and>
   average_ghost \<lparr>server.Name = ''web-01'', Statistics =
          [\<lparr>pulse.Name = ''web-01'', Cpu = 10, Mem = 50, Time = 2 * Hour - 31 * Second\<rparr>,
           \<lparr>pulse.Name = ''web-01'', Cpu = 20, Mem = 60, Time = 2 * Hour - 1 * Second\<rparr>]\<rparr>
        (2 * Hour) (60 * Minute) (1 * Minute)
     = Some \<lparr>members =
               [\<lparr>pulse.Name = ''web-01'', Cpu = 10, Mem = 50, Time = 2 * Hour - 31 * Second\<rparr>,
                \<lparr>pulse.Name = ''web-01'', Cpu = 20, Mem = 60, Time = 2 * Hour - 1 * Second\<rparr>],
             bucket = 1,
             groups = [(1,
               [\<lparr>pulse.Name = ''web-01'', Cpu = 10, Mem = 50, Time = 2 * Hour - 31 * Second\<rparr>,
                \<lparr>pulse.Name = ''web-01'', Cpu = 20, Mem = 60, Time = 2 * Hour - 1 * Second\<rparr>])],
             divisors = [2]\<rparr>"
proof -
  let ?s = "\<lparr>server.Name = ''web-01'', Statistics =
          [\<lparr>pulse.Name = ''web-01'', Cpu = 10, Mem = 50, Time = 2 * Hour - 31 * Second\<rparr>,
           \<lparr>pulse.Name = ''web-01'', Cpu = 20, Mem = 60, Time = 2 * Hour - 1 * Second\<rparr>]\<rparr>"
  have h: "(0::int) < 1 * Minute" by (simp add: units)
  have ev: "average_ghost ?s (2 * Hour) (60 * Minute) (1 * Minute)
     = Some \<lparr>members =
               [\<lparr>pulse.Name = ''web-01'', Cpu = 10, Mem = 50, Time = 2 * Hour - 31 * Second\<rparr>,
                \<lparr>pulse.Name = ''web-01'', Cpu = 20, Mem = 60, Time = 2 * Hour - 1 * Second\<rparr>],
             bucket = 1,
             groups = [(1,
               [\<lparr>pulse.Name = ''web-01'', Cpu = 10, Mem = 50, Time = 2 * Hour - 31 * Second\<rparr>,
                \<lparr>pulse.Name = ''web-01'', Cpu = 20, Mem = 60, Time = 2 * Hour - 1 * Second\<rparr>])],
             divisors = [2]\<rparr>"
    by (simp add: units) (simp add: ghost_defs split del: if_split)
  from average_metrics_aligned [OF h, of ?s "2 * Hour" "60 * Minute"] h ev
  show ?thesis by blast
qed

subsection \<open>C10: no division by zero\<close>

text \<open>
  C10. For every history, every length and every positive rate, \<open>average\<close>
  returns, each entry of its two sequences is a sum divided by the value that
  \<open>a.count\<close> had at that division, and each of these divisors is at least 1: the
  guard \<open>a.cpusum > 0\<close> holds only after a pulse has been added.
\<close>

theorem average_divisors_positive:
  assumes "0 < rate"
  shows "\<exists>g mems cpus.
           average_ghost s start length' rate = Some g \<and>
           average s start length' rate = Some (mems, cpus) \<and>
           length (divisors g) = length (groups g) \<and>
           mems = map2 (\<lambda>ms n. sum_list (map Mem ms) / real_of_int n) (map snd (groups g)) (divisors g) \<and>
           cpus = map2 (\<lambda>ms n. sum_list (map Cpu ms) / real_of_int n) (map snd (groups g)) (divisors g) \<and>
           (\<forall>n \<in> set (divisors g). 1 \<le> n)"
proof -
  from average_ghost_coupled [OF assms, of start length' s] obtain l g where
    c: "coupled (set (Statistics s)) (l, g)"
    and g: "average_ghost s start length' rate = Some g"
    and r: "average s start length' rate = Some (memaverages l, cpuaverages l)"
    by blast
  let ?gs = "map snd (groups g)"
  from c have m: "memaverages l = map (mean Mem) ?gs"
    and cp: "cpuaverages l = map (mean Cpu) ?gs"
    and d: "divisors g = map (\<lambda>ms. int (length ms)) ?gs"
    and ne: "\<forall>ms \<in> set ?gs. ms \<noteq> []"
    by (simp_all add: coupled_def)
  have z: "map2 (\<lambda>ms n. sum_list (map f ms) / real_of_int n) ?gs (map (\<lambda>ms. int (length ms)) ?gs)
             = map (mean f) ?gs" for f
    by (rule map2_quotients)
  have pos: "\<forall>n \<in> set (divisors g). 1 \<le> n"
  proof
    fix k assume "k \<in> set (divisors g)"
    then obtain ms where "ms \<in> set ?gs" and k: "k = int (length ms)" unfolding d by auto
    with ne have "ms \<noteq> []" by blast
    then have "0 < length ms" by simp
    then have "1 \<le> int (length ms)" by linarith
    with k show "1 \<le> k" by simp
  qed
  have L: "length (divisors g) = length (groups g)" unfolding d by simp
  have M: "memaverages l
             = map2 (\<lambda>ms n. sum_list (map Mem ms) / real_of_int n) ?gs (divisors g)"
    unfolding d m by (rule z [symmetric])
  have C: "cpuaverages l
             = map2 (\<lambda>ms n. sum_list (map Cpu ms) / real_of_int n) ?gs (divisors g)"
    unfolding d cp by (rule z [symmetric])
  from g r L M C pos show ?thesis by blast
qed

text \<open>
  Four pulses in three buckets: two divisions, each by 1.
\<close>

theorem average_divisors_positive_witness:
  "(0::int) < 1 * Minute \<and>
   (\<exists>g mems cpus.
      average_ghost \<lparr>server.Name = ''web-01'', Statistics =
          [\<lparr>pulse.Name = ''web-01'', Cpu = 1, Mem = 10, Time = 2 * Hour - 150 * Second\<rparr>,
           \<lparr>pulse.Name = ''web-01'', Cpu = 2, Mem = 20, Time = 2 * Hour - 100 * Second\<rparr>,
           \<lparr>pulse.Name = ''web-01'', Cpu = 4, Mem = 40, Time = 2 * Hour - 90 * Second\<rparr>,
           \<lparr>pulse.Name = ''web-01'', Cpu = 3, Mem = 30, Time = 2 * Hour - 30 * Second\<rparr>]\<rparr>
        (2 * Hour) (60 * Minute) (1 * Minute) = Some g \<and>
      average \<lparr>server.Name = ''web-01'', Statistics =
          [\<lparr>pulse.Name = ''web-01'', Cpu = 1, Mem = 10, Time = 2 * Hour - 150 * Second\<rparr>,
           \<lparr>pulse.Name = ''web-01'', Cpu = 2, Mem = 20, Time = 2 * Hour - 100 * Second\<rparr>,
           \<lparr>pulse.Name = ''web-01'', Cpu = 4, Mem = 40, Time = 2 * Hour - 90 * Second\<rparr>,
           \<lparr>pulse.Name = ''web-01'', Cpu = 3, Mem = 30, Time = 2 * Hour - 30 * Second\<rparr>]\<rparr>
        (2 * Hour) (60 * Minute) (1 * Minute) = Some (mems, cpus) \<and>
      length (divisors g) = length (groups g) \<and>
      mems = map2 (\<lambda>ms n. sum_list (map Mem ms) / real_of_int n) (map snd (groups g)) (divisors g) \<and>
      cpus = map2 (\<lambda>ms n. sum_list (map Cpu ms) / real_of_int n) (map snd (groups g)) (divisors g) \<and>
      (\<forall>n \<in> set (divisors g). 1 \<le> n)) \<and>
   map_option divisors
     (average_ghost \<lparr>server.Name = ''web-01'', Statistics =
          [\<lparr>pulse.Name = ''web-01'', Cpu = 1, Mem = 10, Time = 2 * Hour - 150 * Second\<rparr>,
           \<lparr>pulse.Name = ''web-01'', Cpu = 2, Mem = 20, Time = 2 * Hour - 100 * Second\<rparr>,
           \<lparr>pulse.Name = ''web-01'', Cpu = 4, Mem = 40, Time = 2 * Hour - 90 * Second\<rparr>,
           \<lparr>pulse.Name = ''web-01'', Cpu = 3, Mem = 30, Time = 2 * Hour - 30 * Second\<rparr>]\<rparr>
        (2 * Hour) (60 * Minute) (1 * Minute)) = Some [1, 1] \<and>
   average \<lparr>server.Name = ''web-01'', Statistics =
          [\<lparr>pulse.Name = ''web-01'', Cpu = 1, Mem = 10, Time = 2 * Hour - 150 * Second\<rparr>,
           \<lparr>pulse.Name = ''web-01'', Cpu = 2, Mem = 20, Time = 2 * Hour - 100 * Second\<rparr>,
           \<lparr>pulse.Name = ''web-01'', Cpu = 4, Mem = 40, Time = 2 * Hour - 90 * Second\<rparr>,
           \<lparr>pulse.Name = ''web-01'', Cpu = 3, Mem = 30, Time = 2 * Hour - 30 * Second\<rparr>]\<rparr>
        (2 * Hour) (60 * Minute) (1 * Minute) = Some ([30, 20], [3, 2])"
proof -
  let ?s = "\<lparr>server.Name = ''web-01'', Statistics =
          [\<lparr>pulse.Name = ''web-01'', Cpu = 1, Mem = 10, Time = 2 * Hour - 150 * Second\<rparr>,
           \<lparr>pulse.Name = ''web-01'', Cpu = 2, Mem = 20, Time = 2 * Hour - 100 * Second\<rparr>,
           \<lparr>pulse.Name = ''web-01'', Cpu = 4, Mem = 40, Time = 2 * Hour - 90 * Second\<rparr>,
           \<lparr>pulse.Name = ''web-01'', Cpu = 3, Mem = 30, Time = 2 * Hour - 30 * Second\<rparr>]\<rparr>"
  have h: "(0::int) < 1 * Minute" by (simp add: units)
  have ev: "map_option divisors (average_ghost ?s (2 * Hour) (60 * Minute) (1 * Minute)) = Some [1, 1]"
    by (simp add: units) (simp add: ghost_defs split del: if_split)
  have ev2: "average ?s (2 * Hour) (60 * Minute) (1 * Minute) = Some ([30, 20], [3, 2])"
    by (simp add: units) (simp add: run_defs split del: if_split)
  from average_divisors_positive [OF h, of ?s "2 * Hour" "60 * Minute"] h ev ev2
  show ?thesis by blast
qed

end
